theory Spec2Isabelle
  imports Complex_Main "HOL-Library.AList"
begin

section \<open>Common vocabulary\<close>

text \<open>
  The scraping core is Python. Exceptions become values of \<open>error\<close>; a call that
  mutates \<open>self\<close> takes the object's state and returns the new state next to its result,
  also when it raises (Python keeps the mutations made before a raise).
  A \<open>dict\<close> is an association list in insertion order (\<open>map_of\<close> reads it,
  \<open>AList.update\<close> stores a key keeping the place of an existing one, \<open>AList.delete\<close>
  pops it). The clock (\<open>time.time()\<close>) is a parameter \<open>now\<close> of every call that
  reads it. Timestamps and health scores are exact rationals where Python has floats.
\<close>

datatype error =
    TimeoutError
  | ValueError
  | RuntimeError
  | AttributeError
  | KeyError
  | ZeroDivisionError
  | TypeError
  | RedisError
  | RetryError

type_synonym ('k, 'v) dict = "('k \<times> 'v) list"

definition has_key :: "('k, 'v) dict \<Rightarrow> 'k \<Rightarrow> bool" where
  "has_key d k = (case map_of d k of None \<Rightarrow> False | Some _ \<Rightarrow> True)"

section \<open>utils/concurrency.py: ResourcePool\<close>

text \<open>
  A pooled resource is the \<open>object()\<close> that \<open>_create_resource\<close> makes; the model names
  it by its identity (what \<open>id(obj)\<close> returns), and \<open>heap_next\<close> is the next identity
  the allocator hands out. \<open>semaphore\<close> is the value of the \<open>asyncio.Semaphore\<close>
  (not a bounded one: \<open>release()\<close> always adds one). The idle set \<open>_resources\<close> is a
  duplicate-free list, and \<open>set.pop()\<close>, which may take any element, takes the first.
\<close>

record in_use_entry =
  resource :: nat
  acquired_at :: rat
  last_activity :: rat

record resource_metric =
  acquire_time :: rat
  acquisitions :: int
  last_release :: "rat option"
  total_usage_time :: "rat option"

record resource_pool =
  semaphore :: int
  resources :: "nat list"
  in_use :: "(string option, in_use_entry) dict"
  max_size :: int
  resource_metrics :: "(string option, resource_metric) dict option"
  heap_next :: nat

text \<open>\<open>ResourcePool.__init__\<close>: \<open>asyncio.Semaphore(max_size)\<close> raises \<open>ValueError\<close> on a
  negative value. The periodic cleanup task it starts is not part of the model.\<close>

definition ResourcePool_init :: "int \<Rightarrow> bool \<Rightarrow> error + resource_pool" where
  "ResourcePool_init n enable_metrics =
     (if n < 0 then Inl ValueError
      else Inr \<lparr> semaphore = n, resources = [], in_use = [], max_size = n,
                 resource_metrics = (if enable_metrics then Some [] else None),
                 heap_next = 0 \<rparr>)"

definition create_resource :: "resource_pool \<Rightarrow> nat \<times> resource_pool" where
  "create_resource p = (heap_next p, p\<lparr>heap_next := Suc (heap_next p)\<rparr>)"

definition validate_resource :: "nat \<Rightarrow> bool" where
  "validate_resource r = True"

definition update_acquisition_metrics ::
  "rat \<Rightarrow> string option \<Rightarrow> resource_pool \<Rightarrow> resource_pool" where
  "update_acquisition_metrics now rid p =
     (case resource_metrics p of
        None \<Rightarrow> p
      | Some ms \<Rightarrow>
          p\<lparr>resource_metrics := Some (AList.update rid
               \<lparr> acquire_time = now,
                 acquisitions = (case map_of ms rid of None \<Rightarrow> 0 | Some m \<Rightarrow> acquisitions m) + 1,
                 last_release = None, total_usage_time = None \<rparr> ms)\<rparr>)"

definition update_release_metrics ::
  "rat \<Rightarrow> string option \<Rightarrow> resource_pool \<Rightarrow> resource_pool" where
  "update_release_metrics now rid p =
     (case resource_metrics p of
        None \<Rightarrow> p
      | Some ms \<Rightarrow>
          (case map_of ms rid of
             None \<Rightarrow> p
           | Some m \<Rightarrow>
               p\<lparr>resource_metrics := Some (AList.update rid
                    (m\<lparr> last_release := Some now,
                        total_usage_time := Some
                          ((case total_usage_time m of None \<Rightarrow> 0 | Some t \<Rightarrow> t)
                           + (now - acquire_time m)) \<rparr>) ms)\<rparr>))"

text \<open>
  \<open>ResourcePool.acquire\<close>. The calls of one trace run one after the other, so a wait on
  the semaphore returns at once when its value is positive and otherwise lasts until the
  timeout (a waiter that a release wakes up is the same as an acquire placed after that
  release). \<open>asyncio.wait_for\<close> with a timeout that is not positive cancels the
  acquisition before it starts. The \<open>TimeoutError\<close> is raised inside the outer
  \<open>try\<close>, whose handler calls \<open>self._semaphore.release()\<close> and re-raises.
\<close>

definition acquire ::
  "rat \<Rightarrow> rat \<Rightarrow> string option \<Rightarrow> resource_pool \<Rightarrow> (error + nat) \<times> resource_pool" where
  "acquire now timeout rid p =
     (if 0 < semaphore p \<and> 0 < timeout then
        (let p1 = p\<lparr>semaphore := semaphore p - 1\<rparr>;
             (r, p2) = (case resources p1 of
                          [] \<Rightarrow> create_resource p1
                        | x # xs \<Rightarrow> (x, p1\<lparr>resources := xs\<rparr>));
             p3 = update_acquisition_metrics now rid p2;
             p4 = p3\<lparr>in_use := AList.update rid
                      \<lparr> resource = r, acquired_at = now, last_activity = now \<rparr> (in_use p3)\<rparr>
         in (Inr r, p4))
      else (Inl TimeoutError, p\<lparr>semaphore := semaphore p + 1\<rparr>))"

text \<open>\<open>ResourcePool.release\<close>: nothing in its body raises, so the handler that would
  return \<open>False\<close> is never entered.\<close>

definition release ::
  "rat \<Rightarrow> nat \<Rightarrow> string option \<Rightarrow> resource_pool \<Rightarrow> bool \<times> resource_pool" where
  "release now r rid p =
     (if \<not> has_key (in_use p) rid then (False, p)
      else
        (let p1 = update_release_metrics now rid p;
             p2 = p1\<lparr>in_use := AList.delete rid (in_use p1)\<rparr>;
             p3 = (if validate_resource r then p2\<lparr>resources := List.insert r (resources p2)\<rparr>
                   else p2);
             p4 = p3\<lparr>semaphore := semaphore p3 + 1\<rparr>
         in (True, p4)))"

text \<open>A trace of calls against one pool; the results of the calls are dropped.\<close>

datatype pool_call =
    Acquire rat rat "string option"
  | Release rat nat "string option"

fun pool_step :: "resource_pool \<Rightarrow> pool_call \<Rightarrow> resource_pool" where
  "pool_step p (Acquire now timeout rid) = snd (acquire now timeout rid p)"
| "pool_step p (Release now r rid) = snd (release now r rid p)"

definition run_pool :: "resource_pool \<Rightarrow> pool_call list \<Rightarrow> resource_pool" where
  "run_pool p cs = foldl pool_step p cs"

definition in_use_count :: "resource_pool \<Rightarrow> int" where
  "in_use_count p = int (length (in_use p))"

text \<open>The bound of the pool as an invariant: the semaphore is not negative and the
  resources in use together with the free capacity do not exceed \<open>max_size\<close>.\<close>

definition pool_inv :: "resource_pool \<Rightarrow> bool" where
  "pool_inv p = (0 \<le> semaphore p \<and> in_use_count p + semaphore p \<le> max_size p)"

definition example_pool :: resource_pool where
  "example_pool = \<lparr> semaphore = 1, resources = [], in_use = [], max_size = 1,
                     resource_metrics = Some [], heap_next = 0 \<rparr>"

section \<open>utils/concurrency.py: TaskPool\<close>

record task_meta =
  task_resource :: nat
  started_at :: rat
  meta_context :: "(string, string) dict"
  task_status :: string

record task_metric =
  start_time :: rat
  executions :: int
  end_time :: "rat option"
  total_execution_time :: "rat option"

record task_pool =
  resource_pool :: resource_pool
  task_metadata :: "(string, task_meta) dict"
  task_metrics :: "(string, task_metric) dict option"

definition TaskPool_init :: "int \<Rightarrow> bool \<Rightarrow> error + task_pool" where
  "TaskPool_init n enable_metrics =
     (case ResourcePool_init n enable_metrics of
        Inl e \<Rightarrow> Inl e
      | Inr p \<Rightarrow> Inr \<lparr> resource_pool = p, task_metadata = [],
                        task_metrics = (if enable_metrics then Some [] else None) \<rparr>)"

datatype task_event = Start | End

definition update_task_metrics :: "rat \<Rightarrow> string \<Rightarrow> task_event \<Rightarrow> task_pool \<Rightarrow> task_pool" where
  "update_task_metrics now task_id ev tp =
     (case task_metrics tp of
        None \<Rightarrow> tp
      | Some ms \<Rightarrow>
          (case ev of
             Start \<Rightarrow>
               tp\<lparr>task_metrics := Some (AList.update task_id
                    \<lparr> start_time = now,
                      executions = (case map_of ms task_id of None \<Rightarrow> 0 | Some m \<Rightarrow> executions m) + 1,
                      end_time = None, total_execution_time = None \<rparr> ms)\<rparr>
           | End \<Rightarrow>
               (case map_of ms task_id of
                  None \<Rightarrow> tp
                | Some m \<Rightarrow>
                    tp\<lparr>task_metrics := Some (AList.update task_id
                         (m\<lparr> end_time := Some now,
                             total_execution_time := Some
                               ((case total_execution_time m of None \<Rightarrow> 0 | Some t \<Rightarrow> t)
                                + (now - start_time m)) \<rparr>) ms)\<rparr>)))"

text \<open>
  \<open>TaskPool.acquire\<close>: \<open>TaskPool_acquire_body\<close> is the body of its \<open>try\<close>, where an
  empty task id raises \<open>ValueError\<close> and the pool's \<open>TimeoutError\<close> passes through;
  \<open>TaskPool_acquire\<close> adds the handler \<open>except Exception: return False\<close>.
  \<open>task_context or {}\<close> turns a missing context into the empty dict.
\<close>

definition TaskPool_acquire_body ::
  "rat \<Rightarrow> string \<Rightarrow> rat \<Rightarrow> (string, string) dict option \<Rightarrow> task_pool
     \<Rightarrow> (error + bool) \<times> task_pool" where
  "TaskPool_acquire_body now task_id timeout task_context tp =
     (if task_id = [] then (Inl ValueError, tp)
      else if has_key (task_metadata tp) task_id then (Inr False, tp)
      else
        (case acquire now timeout (Some task_id) (resource_pool tp) of
           (Inl e, p') \<Rightarrow> (Inl e, tp\<lparr>resource_pool := p'\<rparr>)
         | (Inr r, p') \<Rightarrow>
             (let tp1 = tp\<lparr>resource_pool := p'\<rparr>;
                  tp2 = tp1\<lparr>task_metadata := AList.update task_id
                          \<lparr> task_resource = r, started_at = now,
                            meta_context = (case task_context of None \<Rightarrow> [] | Some c \<Rightarrow> c),
                            task_status = ''running'' \<rparr> (task_metadata tp1)\<rparr>;
                  tp3 = update_task_metrics now task_id Start tp2
              in (Inr True, tp3))))"

definition TaskPool_acquire ::
  "rat \<Rightarrow> string \<Rightarrow> rat \<Rightarrow> (string, string) dict option \<Rightarrow> task_pool
     \<Rightarrow> (error + bool) \<times> task_pool" where
  "TaskPool_acquire now task_id timeout task_context tp =
     (case TaskPool_acquire_body now task_id timeout task_context tp of
        (Inl e, tp') \<Rightarrow> (Inr False, tp')
      | (Inr b, tp') \<Rightarrow> (Inr b, tp'))"

definition TaskPool_release :: "rat \<Rightarrow> string \<Rightarrow> task_pool \<Rightarrow> bool \<times> task_pool" where
  "TaskPool_release now task_id tp =
     (case map_of (task_metadata tp) task_id of
        None \<Rightarrow> (False, tp)
      | Some task_data \<Rightarrow>
          (let tp1 = tp\<lparr>task_metadata := AList.delete task_id (task_metadata tp)\<rparr>;
               tp2 = update_task_metrics now task_id End tp1;
               (success, p') = release now (task_resource task_data) (Some task_id) (resource_pool tp2)
           in (success, tp2\<lparr>resource_pool := p'\<rparr>)))"

definition slots_held :: "task_pool \<Rightarrow> string \<Rightarrow> nat" where
  "slots_held tp task_id = length (filter (\<lambda>kv. fst kv = task_id) (task_metadata tp))"

definition example_task_pool :: task_pool where
  "example_task_pool = \<lparr> resource_pool = example_pool, task_metadata = [], task_metrics = Some [] \<rparr>"

section \<open>Circuit breaker\<close>

text \<open>
  Modelled from the spec: the circuit breaker class. The scheduler and the proxy service
  import it from libraries (\<open>circuitbreaker\<close>, \<open>circuit_breaker\<close>) that are not part of
  the repository; the code only calls \<open>current_state\<close>, \<open>is_open()\<close> and
  \<open>record_failure()\<close>. The spec's state machine: Closed to Open after
  \<open>failure_threshold\<close> consecutive failures; Open to HalfOpen once \<open>recovery_timeout\<close>
  has elapsed; HalfOpen to Closed on the first success and back to Open on a failure.
\<close>

datatype breaker_state = Closed | Open | HalfOpen

record circuit_breaker =
  cb_state :: breaker_state
  cb_failures :: nat
  cb_threshold :: rat
  cb_recovery_timeout :: rat
  cb_opened_at :: rat

definition new_breaker :: "rat \<Rightarrow> rat \<Rightarrow> circuit_breaker" where
  "new_breaker threshold recovery =
     \<lparr> cb_state = Closed, cb_failures = 0, cb_threshold = threshold,
       cb_recovery_timeout = recovery, cb_opened_at = 0 \<rparr>"

definition current_state :: "rat \<Rightarrow> circuit_breaker \<Rightarrow> breaker_state" where
  "current_state now cb =
     (if cb_state cb = Open \<and> cb_recovery_timeout cb \<le> now - cb_opened_at cb then HalfOpen
      else cb_state cb)"

definition cb_is_open :: "rat \<Rightarrow> circuit_breaker \<Rightarrow> bool" where
  "cb_is_open now cb = (current_state now cb = Open)"

definition cb_record_failure :: "rat \<Rightarrow> circuit_breaker \<Rightarrow> circuit_breaker" where
  "cb_record_failure now cb =
     (case current_state now cb of
        Closed \<Rightarrow>
          (if cb_threshold cb \<le> of_nat (Suc (cb_failures cb))
           then cb\<lparr>cb_state := Open, cb_failures := Suc (cb_failures cb), cb_opened_at := now\<rparr>
           else cb\<lparr>cb_failures := Suc (cb_failures cb)\<rparr>)
      | HalfOpen \<Rightarrow>
          cb\<lparr>cb_state := Open, cb_failures := Suc (cb_failures cb), cb_opened_at := now\<rparr>
      | Open \<Rightarrow> cb\<lparr>cb_failures := Suc (cb_failures cb)\<rparr>)"

definition cb_record_success :: "rat \<Rightarrow> circuit_breaker \<Rightarrow> circuit_breaker" where
  "cb_record_success now cb =
     (case current_state now cb of
        Closed \<Rightarrow> cb\<lparr>cb_failures := 0\<rparr>
      | HalfOpen \<Rightarrow> cb\<lparr>cb_state := Closed, cb_failures := 0\<rparr>
      | Open \<Rightarrow> cb)"

section \<open>scraper/browser/manager.py: BrowserManager\<close>

text \<open>
  The state of a manager is its fields: the merged configuration, the pool, the active
  map. Of the configuration the operations below read one number, \<open>acquire_timeout\<close>;
  a configuration is the dict of its numeric entries.
  \<open>{**a, **b}\<close> is \<open>dict_merge a b\<close>. The Prometheus gauge of active browsers and the
  error counter are fields of the state. \<open>str(id(browser))\<close> is the decimal numeral of
  the handle's identity.
\<close>

definition dict_merge :: "('k, 'v) dict \<Rightarrow> ('k, 'v) dict \<Rightarrow> ('k, 'v) dict" where
  "dict_merge a b = foldl (\<lambda>d kv. AList.update (fst kv) (snd kv) d) a b"

definition digit_char :: "nat \<Rightarrow> char" where
  "digit_char d = ''0123456789'' ! d"

fun str_nat :: "nat \<Rightarrow> string" where
  "str_nat n = (if n < 10 then [digit_char n]
                else str_nat (n div 10) @ [digit_char (n mod 10)])"

declare str_nat.simps [simp del]

record browser_manager =
  bm_config :: "(string, int) dict"
  browser_pool :: resource_pool
  active_browsers :: "(string, nat) dict"
  active_gauge :: int
  browser_errors :: nat

text \<open>
  \<open>BrowserManager.get_browser\<close>: the pool is asked with no \<open>resource_id\<close>, so the pool
  files the handle under the key \<open>None\<close>. The test \<open>if not browser\<close> never fires: the
  pool returns an object, which is truthy.
\<close>

definition get_browser ::
  "rat \<Rightarrow> (string, int) dict \<Rightarrow> browser_manager \<Rightarrow> (error + nat) \<times> browser_manager" where
  "get_browser now browser_options bm =
     (let merged_options = dict_merge (bm_config bm) browser_options;
          timeout = (case map_of merged_options ''acquire_timeout'' of
                       None \<Rightarrow> 30 | Some t \<Rightarrow> of_int t)
      in case acquire now timeout None (browser_pool bm) of
           (Inl e, p') \<Rightarrow>
             (Inl e, bm\<lparr>browser_pool := p', browser_errors := Suc (browser_errors bm)\<rparr>)
         | (Inr browser, p') \<Rightarrow>
             (Inr browser,
              bm\<lparr>browser_pool := p',
                 active_browsers := AList.update (str_nat browser) browser (active_browsers bm),
                 active_gauge := active_gauge bm + 1\<rparr>))"

text \<open>
  \<open>BrowserManager.release_browser\<close>. \<open>cleanup_raises\<close> says whether the handle's own
  \<open>cleanup()\<close> raises: it does for the plain \<open>object()\<close> that the pool's placeholder
  \<open>_create_resource\<close> makes (no such method), and it may for a real browser. An
  exception is counted and answered with \<open>False\<close>.
\<close>

definition release_browser ::
  "rat \<Rightarrow> bool \<Rightarrow> string \<Rightarrow> browser_manager \<Rightarrow> bool \<times> browser_manager" where
  "release_browser now cleanup_raises browser_id bm =
     (case map_of (active_browsers bm) browser_id of
        None \<Rightarrow> (False, bm)
      | Some browser \<Rightarrow>
          (if cleanup_raises then (False, bm\<lparr>browser_errors := Suc (browser_errors bm)\<rparr>)
           else
             (case release now browser (Some browser_id) (browser_pool bm) of
                (True, p') \<Rightarrow>
                  (True, bm\<lparr>browser_pool := p',
                            active_browsers := AList.delete browser_id (active_browsers bm),
                            active_gauge := active_gauge bm - 1\<rparr>)
              | (False, p') \<Rightarrow> (False, bm\<lparr>browser_pool := p'\<rparr>))))"

section \<open>scraper/scheduler.py: TaskScheduler\<close>

text \<open>
  A job of the external scheduler library is its id and its next run time.
  \<open>_task_locks\<close> is the list of the ids that have a lock; between two calls every lock
  is free. A task configuration is a dict of strings.
\<close>

record job =
  job_id :: string
  next_run_time :: rat

record task_entry =
  entry_job :: job
  entry_config :: "(string, string) dict"
  entry_status :: string
  scheduled_at :: rat
  entry_start_time :: "rat option"
  entry_end_time :: "rat option"
  entry_duration :: "rat option"

record task_scheduler =
  browser_manager :: browser_manager
  active_tasks :: "(string, task_entry) dict"
  task_locks :: "string list"
  circuit_breaker :: circuit_breaker

text \<open>
  The decorator \<open>tenacity.retry(stop_after_attempt(3), wait_exponential(multiplier=1,
  min=4, max=10), retry_if_exception_type(Exception))\<close>: the call is repeated after an
  exception, four seconds later, and when the last attempt raises too the decorator
  raises \<open>RetryError\<close>.
\<close>

fun tenacity_retry ::
  "nat \<Rightarrow> (rat \<Rightarrow> 's \<Rightarrow> (error + 'a) \<times> 's) \<Rightarrow> rat \<Rightarrow> 's \<Rightarrow> (error + 'a) \<times> 's" where
  "tenacity_retry 0 f now s = (Inl RetryError, s)"
| "tenacity_retry (Suc n) f now s =
     (case f now s of
        (Inr v, s') \<Rightarrow> (Inr v, s')
      | (Inl e, s') \<Rightarrow> tenacity_retry n f (now + 4) s')"

text \<open>
  \<open>TaskScheduler.schedule_task\<close>, one attempt. \<open>add_job\<close> is what the external
  scheduler's \<open>add_job\<close> does when it is reached: it raises or returns the job. The
  handler of the \<open>try\<close> logs and re-raises.
\<close>

definition schedule_task_attempt ::
  "(error + job) \<Rightarrow> string \<Rightarrow> (string, string) dict \<Rightarrow> int option \<Rightarrow> rat \<Rightarrow> task_scheduler
     \<Rightarrow> (error + bool) \<times> task_scheduler" where
  "schedule_task_attempt add_job task_id task_config priority now s =
     (if task_config = [] \<or> \<not> has_key task_config ''url'' then (Inl ValueError, s)
      else if current_state now (circuit_breaker s) = Open then (Inr False, s)
      else
        (let s1 = (if task_id \<in> set (task_locks s) then s
                   else s\<lparr>task_locks := task_locks s @ [task_id]\<rparr>)
         in if has_key (active_tasks s1) task_id then (Inr False, s1)
            else
              (case add_job of
                 Inl e \<Rightarrow> (Inl e, s1)
               | Inr j \<Rightarrow>
                   (Inr True,
                    s1\<lparr>active_tasks := AList.update task_id
                         \<lparr> entry_job = j, entry_config = task_config,
                           entry_status = ''scheduled'', scheduled_at = next_run_time j,
                           entry_start_time = None, entry_end_time = None,
                           entry_duration = None \<rparr> (active_tasks s1)\<rparr>))))"

definition schedule_task ::
  "(error + job) \<Rightarrow> string \<Rightarrow> (string, string) dict \<Rightarrow> int option \<Rightarrow> rat \<Rightarrow> task_scheduler
     \<Rightarrow> (error + bool) \<times> task_scheduler" where
  "schedule_task add_job task_id task_config priority now s =
     tenacity_retry 3 (schedule_task_attempt add_job task_id task_config priority) now s"

text \<open>
  \<open>TaskScheduler.execute_task\<close>, one attempt. The scraping operation is a placeholder in
  the source (it cannot raise); \<open>body\<close> stands for it: \<open>None\<close> is the code as written,
  \<open>Some e\<close> an operation that raises \<open>e\<close>. \<open>failed\<close> is the handler (the breaker
  records a failure, the exception goes on); the \<open>finally\<close> clause releases the browser
  under \<open>str(id(browser))\<close> when one was acquired and drops the answer. The clock is
  read once per attempt.
\<close>

definition browser_context_options :: "(string, int) dict" where
  "browser_context_options = [(''deviceScaleFactor'', 1)]"

definition failed :: "rat \<Rightarrow> error \<Rightarrow> task_scheduler \<Rightarrow> (error + string) \<times> task_scheduler" where
  "failed now e s = (Inl e, s\<lparr>circuit_breaker := cb_record_failure now (circuit_breaker s)\<rparr>)"

definition execute_task_attempt ::
  "bool \<Rightarrow> error option \<Rightarrow> string \<Rightarrow> rat \<Rightarrow> task_scheduler
     \<Rightarrow> (error + string) \<times> task_scheduler" where
  "execute_task_attempt cleanup_raises body task_id now s =
     (if current_state now (circuit_breaker s) = Open then failed now RuntimeError s
      else if task_id \<notin> set (task_locks s) then failed now KeyError s
      else
        (case map_of (active_tasks s) task_id of
           None \<Rightarrow> failed now RuntimeError s
         | Some task_data \<Rightarrow>
             (let running = task_data\<lparr>entry_status := ''running'', entry_start_time := Some now\<rparr>;
                  s1 = s\<lparr>active_tasks := AList.update task_id running (active_tasks s)\<rparr>
              in case get_browser now browser_context_options (browser_manager s1) of
                   (Inl e, bm') \<Rightarrow> failed now e (s1\<lparr>browser_manager := bm'\<rparr>)
                 | (Inr browser, bm') \<Rightarrow>
                     (let s2 = s1\<lparr>browser_manager := bm'\<rparr>;
                          (res, s3) =
                            (case body of
                               Some e \<Rightarrow> failed now e s2
                             | None \<Rightarrow>
                                 (Inr ''completed'',
                                  s2\<lparr>active_tasks := AList.update task_id
                                       (running\<lparr>entry_status := ''completed'',
                                                entry_end_time := Some now,
                                                entry_duration := Some 0\<rparr>)
                                       (active_tasks s2)\<rparr>));
                          (released, bm'') =
                            release_browser now cleanup_raises (str_nat browser) (browser_manager s3)
                      in (res, s3\<lparr>browser_manager := bm''\<rparr>)))))"

definition execute_task ::
  "bool \<Rightarrow> error option \<Rightarrow> string \<Rightarrow> rat \<Rightarrow> task_scheduler
     \<Rightarrow> (error + string) \<times> task_scheduler" where
  "execute_task cleanup_raises body task_id now s =
     tenacity_retry 3 (execute_task_attempt cleanup_raises body task_id) now s"

definition example_manager :: browser_manager where
  "example_manager =
     \<lparr> bm_config = [(''timeout'', 30000), (''pool_size'', 2)],
       browser_pool = \<lparr> semaphore = 2, resources = [], in_use = [], max_size = 2,
                        resource_metrics = Some [], heap_next = 0 \<rparr>,
       active_browsers = [], active_gauge = 0, browser_errors = 0 \<rparr>"

definition example_job :: job where
  "example_job = \<lparr> job_id = ''t1'', next_run_time = 0 \<rparr>"

definition example_config :: "(string, string) dict" where
  "example_config = [(''url'', ''https://example.com'')]"

definition example_scheduler :: task_scheduler where
  "example_scheduler =
     \<lparr> browser_manager = example_manager,
       active_tasks = [(''t1'', \<lparr> entry_job = example_job, entry_config = example_config,
                                 entry_status = ''scheduled'', scheduled_at = 0,
                                 entry_start_time = None, entry_end_time = None,
                                 entry_duration = None \<rparr>)],
       task_locks = [''t1''],
       circuit_breaker = new_breaker 5 30 \<rparr>"

section \<open>scraper/middleware/rate_limit.py: RateLimitMiddleware\<close>

text \<open>
  The counter store is the Redis behind \<open>CacheService\<close>; of the service the model keeps
  whether the server can be reached. The middleware holds the per-domain configuration
  and its three counters.
\<close>

record cache_service =
  reachable :: bool

record rate_limit_middleware =
  cache :: cache_service
  rate_limits :: "(string, int) dict"
  window_seconds :: "(string, int) dict"
  burst_multipliers :: "(string, rat) dict"
  rate_limit_hits :: nat
  rate_limit_misses :: nat
  rate_limit_errors :: nat

definition DEFAULT_WINDOW_SECONDS :: int where
  "DEFAULT_WINDOW_SECONDS = 60"

definition RATE_LIMIT_KEY_PREFIX :: string where
  "RATE_LIMIT_KEY_PREFIX = ''scraper:rate_limit:''"

definition RateLimitMiddleware_init ::
  "cache_service \<Rightarrow> (string, int) dict \<Rightarrow> (string, int) dict \<Rightarrow> (string, rat) dict
     \<Rightarrow> rate_limit_middleware" where
  "RateLimitMiddleware_init c limits windows bursts =
     \<lparr> cache = c, rate_limits = limits, window_seconds = windows, burst_multipliers = bursts,
       rate_limit_hits = 0, rate_limit_misses = 0, rate_limit_errors = 0 \<rparr>"

definition sanitize :: "string \<Rightarrow> string" where
  "sanitize s = map (\<lambda>c. if c = CHR '':'' \<or> c = CHR ''/'' then CHR ''_'' else c) s"

definition get_rate_limit_key :: "string \<Rightarrow> string option \<Rightarrow> string" where
  "get_rate_limit_key domain client_id =
     (let key = RATE_LIMIT_KEY_PREFIX @ sanitize domain
      in case client_id of
           None \<Rightarrow> key
         | Some c \<Rightarrow> (if c = [] then key else key @ '':client:'' @ sanitize c))"

text \<open>
  The call of the store in \<open>check_rate_limit\<close> (rate_limit.py, lines 131 to 135) is
  \<open>self._cache._redis_client.eval(script, keys=[key], args=[burst_limit, window])\<close>.
  The client is the \<open>redis.asyncio.Redis\<close> that \<open>CacheService.__init__\<close> builds
  (cache.py, line 76) and never replaces; its method is declared
  \<open>eval(self, script, numkeys, *keys_and_args)\<close>. Python binds the arguments of a call
  to the parameters before the method runs, and a keyword that names no parameter raises
  \<open>TypeError\<close>. The method has no parameter \<open>keys\<close> or \<open>args\<close>, so the call raises
  every time, whatever the store holds and whether or not it can be reached, and the Lua
  script it carries is never sent. \<open>redis_eval\<close> is the exception of that call.
\<close>

definition redis_eval :: "cache_service \<Rightarrow> string \<Rightarrow> error" where
  "redis_eval c key = TypeError"

text \<open>
  \<open>RateLimitMiddleware.check_rate_limit\<close>. The body of its \<open>try\<close> reads the
  configuration of the domain, computes the burst limit and the key and calls the store;
  \<open>rate_limit_failed\<close> is its handler \<open>except Exception\<close>, commented "Fail closed on
  errors" in the source, which takes the exception of the call. The statements that
  follow the call in the source (the two other counters, the backoff) are never reached
  and have no part in the model.
\<close>

definition rate_limit_failed ::
  "rate_limit_middleware \<Rightarrow> (bool \<times> int \<times> rat option) \<times> rate_limit_middleware" where
  "rate_limit_failed m =
     ((False, 0, Some (of_int DEFAULT_WINDOW_SECONDS)),
      m\<lparr>rate_limit_errors := Suc (rate_limit_errors m)\<rparr>)"

definition check_rate_limit ::
  "rat \<Rightarrow> string \<Rightarrow> string option \<Rightarrow> rate_limit_middleware
     \<Rightarrow> (bool \<times> int \<times> rat option) \<times> rate_limit_middleware" where
  "check_rate_limit now domain client_id m =
     (let raised = redis_eval (cache m) (get_rate_limit_key domain client_id)
      in rate_limit_failed m)"

text \<open>The answers \<open>allowed\<close> of successive calls for one bucket, made at the given times.\<close>

fun check_all ::
  "rat list \<Rightarrow> string \<Rightarrow> string option \<Rightarrow> rate_limit_middleware
     \<Rightarrow> bool list \<times> rate_limit_middleware" where
  "check_all [] domain client_id m = ([], m)"
| "check_all (t # ts) domain client_id m =
     (let (r, m1) = check_rate_limit t domain client_id m;
          (bs, m2) = check_all ts domain client_id m1
      in (fst r # bs, m2))"

definition admitted :: "bool list \<Rightarrow> nat" where
  "admitted bs = length (filter (\<lambda>b. b) bs)"

definition example_limiter :: "int \<Rightarrow> rat \<Rightarrow> rate_limit_middleware" where
  "example_limiter limit burst =
     RateLimitMiddleware_init \<lparr> reachable = True \<rparr>
       [(''example.com'', limit)] [] [(''example.com'', burst)]"

section \<open>services/proxy.py: ProxyService\<close>

text \<open>
  The two dicts of the service, \<open>_proxy_metrics\<close> and \<open>_circuit_breakers\<close>, keep their
  insertion order, which is the order in which \<open>get_proxy\<close> goes through the proxies.
  The counters are Python integers; the health score is the exact quotient.
  \<open>health_gauge\<close> is the Prometheus gauge \<open>proxy_health\<close>: the label sets it holds
  (one per proxy URL that has been given a value) and their values.
\<close>

record ProxyMetrics =
  success_count :: int
  failure_count :: int
  total_latency :: rat
  last_used :: rat
  last_success :: rat
  health_score :: rat

record proxy_service =
  pool_size :: int
  proxy_metrics :: "(string, ProxyMetrics) dict"
  circuit_breakers :: "(string, circuit_breaker) dict"
  health_gauge :: "(string, rat) dict"

definition PROXY_SUCCESS_THRESHOLD :: rat where
  "PROXY_SUCCESS_THRESHOLD = 95 / 100"

definition PROXY_CIRCUIT_BREAKER_THRESHOLD :: rat where
  "PROXY_CIRCUIT_BREAKER_THRESHOLD = 85 / 100"

definition new_ProxyMetrics :: ProxyMetrics where
  "new_ProxyMetrics =
     \<lparr> success_count = 0, failure_count = 0, total_latency = 0, last_used = 0,
       last_success = 0, health_score = 1 \<rparr>"

text \<open>\<open>_add_proxy\<close>; \<open>is_valid\<close> is the answer of \<open>validate_proxy_url\<close> for the URL.\<close>

definition add_proxy :: "bool \<Rightarrow> string \<Rightarrow> proxy_service \<Rightarrow> proxy_service" where
  "add_proxy is_valid proxy_url svc =
     (if \<not> is_valid then svc
      else svc\<lparr>proxy_metrics := AList.update proxy_url new_ProxyMetrics (proxy_metrics svc),
               circuit_breakers := AList.update proxy_url
                 (new_breaker PROXY_CIRCUIT_BREAKER_THRESHOLD 300) (circuit_breakers svc)\<rparr>)"

text \<open>
  \<open>_remove_proxy\<close> pops the proxy from both dicts and then calls
  \<open>proxy_health.remove(proxy_url)\<close>, which deletes the label set of the gauge and raises
  \<open>KeyError\<close> when the gauge has none for that URL.
\<close>

definition remove_proxy :: "string \<Rightarrow> proxy_service \<Rightarrow> (error + unit) \<times> proxy_service" where
  "remove_proxy proxy_url svc =
     (let svc1 = svc\<lparr>proxy_metrics := AList.delete proxy_url (proxy_metrics svc),
                     circuit_breakers := AList.delete proxy_url (circuit_breakers svc)\<rparr>
      in if has_key (health_gauge svc1) proxy_url then
           (Inr (), svc1\<lparr>health_gauge := AList.delete proxy_url (health_gauge svc1)\<rparr>)
         else (Inl KeyError, svc1))"

text \<open>
  \<open>_record_success\<close> and \<open>_record_failure\<close>. The counter is stored before the quotient
  is taken, so a zero denominator raises \<open>ZeroDivisionError\<close> with the counter already
  changed. After the quotient the gauge is given the new score under the proxy's URL.
\<close>

definition record_success ::
  "rat \<Rightarrow> string \<Rightarrow> rat \<Rightarrow> proxy_service \<Rightarrow> (error + unit) \<times> proxy_service" where
  "record_success now proxy_url duration svc =
     (case map_of (proxy_metrics svc) proxy_url of
        None \<Rightarrow> (Inr (), svc)
      | Some m \<Rightarrow>
          (let m1 = m\<lparr>success_count := success_count m + 1,
                      total_latency := total_latency m + duration,
                      last_success := now\<rparr>
           in if success_count m1 + failure_count m1 = 0 then
                (Inl ZeroDivisionError,
                 svc\<lparr>proxy_metrics := AList.update proxy_url m1 (proxy_metrics svc)\<rparr>)
              else
                (Inr (),
                 svc\<lparr>proxy_metrics := AList.update proxy_url
                      (m1\<lparr>health_score := of_int (success_count m1)
                                            / of_int (success_count m1 + failure_count m1)\<rparr>)
                      (proxy_metrics svc),
                     health_gauge := AList.update proxy_url
                      (of_int (success_count m1) / of_int (success_count m1 + failure_count m1))
                      (health_gauge svc)\<rparr>)))"

definition record_failure ::
  "string \<Rightarrow> proxy_service \<Rightarrow> (error + unit) \<times> proxy_service" where
  "record_failure proxy_url svc =
     (case map_of (proxy_metrics svc) proxy_url of
        None \<Rightarrow> (Inr (), svc)
      | Some m \<Rightarrow>
          (let m1 = m\<lparr>failure_count := failure_count m + 1\<rparr>
           in if success_count m1 + failure_count m1 = 0 then
                (Inl ZeroDivisionError,
                 svc\<lparr>proxy_metrics := AList.update proxy_url m1 (proxy_metrics svc)\<rparr>)
              else
                (Inr (),
                 svc\<lparr>proxy_metrics := AList.update proxy_url
                      (m1\<lparr>health_score := of_int (success_count m1)
                                            / of_int (success_count m1 + failure_count m1)\<rparr>)
                      (proxy_metrics svc),
                     health_gauge := AList.update proxy_url
                      (of_int (success_count m1) / of_int (success_count m1 + failure_count m1))
                      (health_gauge svc)\<rparr>)))"

text \<open>
  \<open>get_proxy\<close>, one attempt. The comprehension goes through \<open>_circuit_breakers\<close> in
  order and reads the metrics of a proxy only when its breaker is not open; a proxy
  without metrics raises \<open>KeyError\<close>. \<open>max(..., key=...)\<close> returns the first element
  whose key is largest.
\<close>

fun healthy_proxies ::
  "rat \<Rightarrow> (string, ProxyMetrics) dict \<Rightarrow> (string, circuit_breaker) dict \<Rightarrow> error + string list" where
  "healthy_proxies now ms [] = Inr []"
| "healthy_proxies now ms ((proxy_url, cb) # rest) =
     (if cb_is_open now cb then healthy_proxies now ms rest
      else
        (case map_of ms proxy_url of
           None \<Rightarrow> Inl KeyError
         | Some m \<Rightarrow>
             (case healthy_proxies now ms rest of
                Inl e \<Rightarrow> Inl e
              | Inr us \<Rightarrow>
                  (if PROXY_SUCCESS_THRESHOLD \<le> health_score m then Inr (proxy_url # us)
                   else Inr us))))"

fun max_by :: "('a \<Rightarrow> rat) \<Rightarrow> 'a \<Rightarrow> 'a list \<Rightarrow> 'a" where
  "max_by key best [] = best"
| "max_by key best (x # xs) = max_by key (if key best < key x then x else best) xs"

definition score :: "(string, ProxyMetrics) dict \<Rightarrow> string \<Rightarrow> rat" where
  "score ms proxy_url = (case map_of ms proxy_url of None \<Rightarrow> 0 | Some m \<Rightarrow> health_score m)"

definition get_proxy_attempt ::
  "rat \<Rightarrow> proxy_service \<Rightarrow> (error + string) \<times> proxy_service" where
  "get_proxy_attempt now svc =
     (case healthy_proxies now (proxy_metrics svc) (circuit_breakers svc) of
        Inl e \<Rightarrow> (Inl e, svc)
      | Inr [] \<Rightarrow> (Inl RuntimeError, svc)
      | Inr (p # ps) \<Rightarrow>
          (let selected_proxy = max_by (score (proxy_metrics svc)) p ps
           in (Inr selected_proxy,
               svc\<lparr>proxy_metrics :=
                     (case map_of (proxy_metrics svc) selected_proxy of
                        None \<Rightarrow> proxy_metrics svc
                      | Some m \<Rightarrow> AList.update selected_proxy (m\<lparr>last_used := now\<rparr>)
                                    (proxy_metrics svc))\<rparr>)))"

text \<open>
  The decorator \<open>AsyncRetry(max_retries=3, ...)\<close> of \<open>utils/retry.py\<close>: up to four
  attempts; after a failed attempt it sleeps for a delay with random jitter (the three
  delays are parameters) and the last attempt's exception is re-raised as it is.
\<close>

fun async_retry ::
  "rat list \<Rightarrow> (rat \<Rightarrow> 's \<Rightarrow> (error + 'a) \<times> 's) \<Rightarrow> rat \<Rightarrow> 's \<Rightarrow> (error + 'a) \<times> 's" where
  "async_retry [] f now s = f now s"
| "async_retry (d # ds) f now s =
     (case f now s of
        (Inr v, s') \<Rightarrow> (Inr v, s')
      | (Inl e, s') \<Rightarrow> async_retry ds f (now + d) s')"

definition get_proxy ::
  "rat \<times> rat \<times> rat \<Rightarrow> rat \<Rightarrow> proxy_service \<Rightarrow> (error + string) \<times> proxy_service" where
  "get_proxy delays now svc =
     (case delays of (d0, d1, d2) \<Rightarrow> async_retry [d0, d1, d2] get_proxy_attempt now svc)"

text \<open>
  \<open>report_failure\<close>. \<open>replacement\<close> is what the upstream proxy source answers when a
  replacement is asked for: \<open>None\<close> when that call raises (the exception is logged),
  otherwise the URL and the answer of \<open>validate_proxy_url\<close> for it. An exception of
  \<open>_record_failure\<close> or of \<open>_remove_proxy\<close> leaves the method at once.
\<close>

definition request_replacement ::
  "(string \<times> bool) option \<Rightarrow> proxy_service \<Rightarrow> proxy_service" where
  "request_replacement replacement svc =
     (if int (length (proxy_metrics svc)) < pool_size svc then
        (case replacement of
           None \<Rightarrow> svc
         | Some (new_url, is_valid) \<Rightarrow> add_proxy is_valid new_url svc)
      else svc)"

definition report_failure ::
  "rat \<Rightarrow> (string \<times> bool) option \<Rightarrow> string \<Rightarrow> proxy_service
     \<Rightarrow> (error + unit) \<times> proxy_service" where
  "report_failure now replacement proxy_url svc =
     (case record_failure proxy_url svc of
        (Inl e, svc1) \<Rightarrow> (Inl e, svc1)
      | (Inr u, svc1) \<Rightarrow>
          (case map_of (circuit_breakers svc1) proxy_url of
             None \<Rightarrow> (Inr (), request_replacement replacement svc1)
           | Some cb \<Rightarrow>
               (let cb1 = cb_record_failure now cb;
                    svc2 = svc1\<lparr>circuit_breakers :=
                              AList.update proxy_url cb1 (circuit_breakers svc1)\<rparr>
                in if cb_is_open now cb1 then
                     (case remove_proxy proxy_url svc2 of
                        (Inl e, svc3) \<Rightarrow> (Inl e, svc3)
                      | (Inr v, svc3) \<Rightarrow> (Inr (), request_replacement replacement svc3))
                   else (Inr (), request_replacement replacement svc2))))"

text \<open>
  \<open>_rotate_proxies\<close>: it goes through a snapshot of the metrics and removes the proxies
  whose score is below the threshold, then tops the pool up with what the upstream source
  returns (\<open>None\<close> when that call raises; otherwise the URLs, each with the answer of
  \<open>validate_proxy_url\<close>). The whole body is in a \<open>try\<close> whose handler logs, so an
  exception ends the rotation where it is.
\<close>

fun remove_underperforming ::
  "(string \<times> ProxyMetrics) list \<Rightarrow> proxy_service \<Rightarrow> (error + unit) \<times> proxy_service" where
  "remove_underperforming [] svc = (Inr (), svc)"
| "remove_underperforming ((proxy_url, m) # rest) svc =
     (if health_score m < PROXY_SUCCESS_THRESHOLD then
        (case remove_proxy proxy_url svc of
           (Inl e, svc1) \<Rightarrow> (Inl e, svc1)
         | (Inr u, svc1) \<Rightarrow> remove_underperforming rest svc1)
      else remove_underperforming rest svc)"

fun add_proxies :: "(string \<times> bool) list \<Rightarrow> proxy_service \<Rightarrow> proxy_service" where
  "add_proxies [] svc = svc"
| "add_proxies ((proxy_url, is_valid) # rest) svc = add_proxies rest (add_proxy is_valid proxy_url svc)"

definition rotate_proxies :: "(string \<times> bool) list option \<Rightarrow> proxy_service \<Rightarrow> proxy_service" where
  "rotate_proxies upstream svc =
     (case remove_underperforming (proxy_metrics svc) svc of
        (Inl e, svc1) \<Rightarrow> svc1
      | (Inr u, svc1) \<Rightarrow>
          (if int (length (proxy_metrics svc1)) < pool_size svc1 then
             (case upstream of None \<Rightarrow> svc1 | Some new_proxies \<Rightarrow> add_proxies new_proxies svc1)
           else svc1))"

text \<open>
  A run of the registry: the calls that reach it one after the other (the health check
  loop reports through \<open>_record_success\<close> and \<open>_record_failure\<close>), each on the state
  the one before left, also when that one raised. \<open>handed_out\<close> lists the proxies that
  the \<open>get_proxy\<close> calls of a run return. A call offers a URL when the upstream source
  answers it with that URL and the URL is valid, so that \<open>_add_proxy\<close> would add it.
\<close>

datatype proxy_call =
    GetProxy "rat \<times> rat \<times> rat" rat
  | RecordSuccess rat string rat
  | RecordFailure string
  | ReportFailure rat "(string \<times> bool) option" string
  | Rotate "(string \<times> bool) list option"

fun proxy_step :: "proxy_service \<Rightarrow> proxy_call \<Rightarrow> string option \<times> proxy_service" where
  "proxy_step svc (GetProxy delays now) =
     (case get_proxy delays now svc of
        (Inl e, svc1) \<Rightarrow> (None, svc1)
      | (Inr proxy_url, svc1) \<Rightarrow> (Some proxy_url, svc1))"
| "proxy_step svc (RecordSuccess now proxy_url duration) =
     (None, snd (record_success now proxy_url duration svc))"
| "proxy_step svc (RecordFailure proxy_url) = (None, snd (record_failure proxy_url svc))"
| "proxy_step svc (ReportFailure now replacement proxy_url) =
     (None, snd (report_failure now replacement proxy_url svc))"
| "proxy_step svc (Rotate upstream) = (None, rotate_proxies upstream svc)"

fun handed_out :: "proxy_service \<Rightarrow> proxy_call list \<Rightarrow> string list" where
  "handed_out svc [] = []"
| "handed_out svc (c # cs) =
     (case proxy_step svc c of
        (None, svc1) \<Rightarrow> handed_out svc1 cs
      | (Some proxy_url, svc1) \<Rightarrow> proxy_url # handed_out svc1 cs)"

fun offers :: "string \<Rightarrow> proxy_call \<Rightarrow> bool" where
  "offers proxy_url (ReportFailure now (Some (new_url, is_valid)) failed_url) =
     (new_url = proxy_url \<and> is_valid)"
| "offers proxy_url (Rotate (Some new_proxies)) = ((proxy_url, True) \<in> set new_proxies)"
| "offers proxy_url c = False"

text \<open>
  The selection as the specification words it: the proxies whose breaker is not Open and
  whose health score reaches the success threshold, in registry order.
\<close>

definition qualifies :: "rat \<Rightarrow> proxy_service \<Rightarrow> string \<times> circuit_breaker \<Rightarrow> bool" where
  "qualifies now svc kv =
     (\<not> cb_is_open now (snd kv)
      \<and> PROXY_SUCCESS_THRESHOLD \<le> score (proxy_metrics svc) (fst kv))"

definition qualifying :: "rat \<Rightarrow> proxy_service \<Rightarrow> string list" where
  "qualifying now svc = map fst (filter (qualifies now svc) (circuit_breakers svc))"

definition tracked :: "proxy_service \<Rightarrow> bool" where
  "tracked svc = list_all (\<lambda>kv. has_key (proxy_metrics svc) (fst kv)) (circuit_breakers svc)"

section \<open>Example states\<close>

text \<open>The states at which the properties below are evaluated.\<close>

definition unreachable_limiter :: rate_limit_middleware where
  "unreachable_limiter =
     RateLimitMiddleware_init \<lparr> reachable = False \<rparr>
       [(''example.com'', 5)] [] [(''example.com'', 0)]"

definition two_proxies :: proxy_service where
  "two_proxies =
     add_proxy True ''B'' (add_proxy True ''A''
       \<lparr> pool_size = 2, proxy_metrics = [], circuit_breakers = [], health_gauge = [] \<rparr>)"

definition no_proxies :: proxy_service where
  "no_proxies =
     \<lparr> pool_size = 2, proxy_metrics = [], circuit_breakers = [], health_gauge = [] \<rparr>"

text \<open>A registry with one proxy, as a proxy added, handed out at time 5 and reported
  successful 99 times (one second each) leaves it.\<close>

definition one_proxy :: proxy_service where
  "one_proxy =
     \<lparr> pool_size = 1,
       proxy_metrics = [(''A'', \<lparr> success_count = 99, failure_count = 0, total_latency = 99,
                                 last_used = 5, last_success = 5, health_score = 1 \<rparr>)],
       circuit_breakers = [(''A'', new_breaker PROXY_CIRCUIT_BREAKER_THRESHOLD 300)],
       health_gauge = [(''A'', 1)] \<rparr>"

definition evicted :: proxy_service where
  "evicted = \<lparr> pool_size = 1, proxy_metrics = [], circuit_breakers = [], health_gauge = [] \<rparr>"

definition open_scheduler :: task_scheduler where
  "open_scheduler = example_scheduler\<lparr>circuit_breaker :=
      \<lparr> cb_state = Open, cb_failures = 5, cb_threshold = 5, cb_recovery_timeout = 30,
        cb_opened_at = 0 \<rparr>\<rparr>"

section \<open>Properties of ResourcePool\<close>

text \<open>
  Claim C9. Releasing a resource id that is not in the in-use map returns \<open>False\<close> and
  returns the pool exactly as it was: the idle set, the in-use map, the semaphore (the
  available capacity) and the metrics are those of before the call.
\<close>

theorem release_unacquired_unchanged:
  "\<not> has_key (in_use p) rid \<Longrightarrow> release now r rid p = (False, p)"
  by (simp add: release_def)

theorem release_unacquired_unchanged_witness:
  "\<not> has_key (in_use example_pool) (Some ''ghost'')
   \<and> release 7 0 (Some ''ghost'') example_pool = (False, example_pool)"
proof -
  have h: "\<not> has_key (in_use example_pool) (Some ''ghost'')"
    by (simp add: has_key_def example_pool_def)
  show ?thesis
    using h release_unacquired_unchanged [OF h, of 7 0] by simp
qed

text \<open>
  The example pools are what the constructors build.
\<close>

lemma example_pools_constructed:
  "ResourcePool_init 1 True = Inr example_pool
   \<and> TaskPool_init 1 True = Inr example_task_pool"
  by (simp add: ResourcePool_init_def example_pool_def TaskPool_init_def example_task_pool_def)

text \<open>
  A pool as constructed satisfies the invariant, and so the bound; an \<open>acquire\<close> that
  succeeds and every \<open>release\<close> keep it. Only an \<open>acquire\<close> that times out is
  missing here.
\<close>

lemma update_acquisition_metrics_fields:
  "in_use (update_acquisition_metrics now rid p) = in_use p"
  "semaphore (update_acquisition_metrics now rid p) = semaphore p"
  by (simp_all add: update_acquisition_metrics_def split: option.splits)

lemma acquire_success:
  assumes "acquire now t rid p = (Inr r, p')"
  shows "in_use p' = AList.update rid \<lparr> resource = r, acquired_at = now, last_activity = now \<rparr>
                       (in_use p)
       \<and> semaphore p' = semaphore p - 1"
  using assms
  by (auto simp: acquire_def create_resource_def update_acquisition_metrics_fields Let_def
           split: if_splits list.splits)

lemma length_update_le: "length (AList.update k v al) \<le> Suc (length al)"
  by (induction al) auto

lemma length_delete_less: "has_key al k \<Longrightarrow> length (AList.delete k al) < length al"
proof (induction al)
  case Nil
  then show ?case by (simp add: has_key_def)
next
  case (Cons kv al)
  show ?case
  proof (cases "fst kv = k")
    case True
    have "length (AList.delete k al) \<le> length al" by (rule length_delete_le)
    with True show ?thesis by (cases kv) auto
  next
    case False
    with Cons.prems have "has_key al k" by (cases kv) (simp add: has_key_def)
    with Cons.IH False show ?thesis by (cases kv) simp
  qed
qed

lemma acquire_max_size: "max_size (snd (acquire now t rid p)) = max_size p"
  by (simp add: acquire_def create_resource_def update_acquisition_metrics_def Let_def
        split: list.splits option.splits)

lemma acquire_success_keeps_bound:
  assumes "pool_inv p" and "acquire now t rid p = (Inr r, p')"
  shows "pool_inv p'"
proof -
  from acquire_success [OF assms(2)] have
    iu: "length (in_use p') \<le> Suc (length (in_use p))" and sem: "semaphore p' = semaphore p - 1"
    by (simp_all add: length_update_le)
  from assms(2) have pos: "0 < semaphore p" by (auto simp: acquire_def split: if_splits)
  from acquire_max_size [of now t rid p] assms(2) have "max_size p' = max_size p" by simp
  with assms(1) iu sem pos show ?thesis by (simp add: pool_inv_def in_use_count_def)
qed

lemma release_keeps_bound:
  assumes "pool_inv p"
  shows "pool_inv (snd (release now r rid p))"
proof (cases "has_key (in_use p) rid")
  case False
  with assms show ?thesis by (simp add: release_def)
next
  case True
  have fields: "in_use (update_release_metrics now rid p) = in_use p"
    "semaphore (update_release_metrics now rid p) = semaphore p"
    "max_size (update_release_metrics now rid p) = max_size p"
    by (simp_all add: update_release_metrics_def split: option.splits)
  from length_delete_less [OF True] assms True show ?thesis
    by (simp add: release_def Let_def fields pool_inv_def in_use_count_def validate_resource_def)
qed

lemma pool_inv_bound: "pool_inv p \<Longrightarrow> in_use_count p \<le> max_size p"
  by (simp add: pool_inv_def)

lemma pool_inv_init: "ResourcePool_init n m = Inr p \<Longrightarrow> pool_inv p"
  by (auto simp: ResourcePool_init_def pool_inv_def in_use_count_def split: if_splits)

text \<open>
  Claim C2 (the code departs from it). In a pool of size 1, one resource is in use; a
  second \<open>acquire\<close> times out, and the handler of the outer \<open>try\<close> releases a
  semaphore unit that this call never took, so the capacity rises from 0 to 1; a third
  \<open>acquire\<close> is then admitted, and two resources are in use at once in a pool whose
  \<open>max_size\<close> is 1.
\<close>

theorem acquire_timeout_adds_capacity:
  "ResourcePool_init 1 True = Inr example_pool
   \<and> semaphore (run_pool example_pool [Acquire 0 30 (Some ''a'')]) = 0
   \<and> fst (acquire 1 (1/10) (Some ''b'') (run_pool example_pool [Acquire 0 30 (Some ''a'')]))
        = Inl TimeoutError
   \<and> semaphore (run_pool example_pool
        [Acquire 0 30 (Some ''a''), Acquire 1 (1/10) (Some ''b'')]) = 1
   \<and> in_use_count (run_pool example_pool
        [Acquire 0 30 (Some ''a''), Acquire 1 (1/10) (Some ''b''), Acquire 2 30 (Some ''c'')]) = 2
   \<and> max_size (run_pool example_pool
        [Acquire 0 30 (Some ''a''), Acquire 1 (1/10) (Some ''b''), Acquire 2 30 (Some ''c'')]) = 1"
  by (simp add: ResourcePool_init_def example_pool_def run_pool_def acquire_def
        create_resource_def update_acquisition_metrics_def in_use_count_def Let_def)

section \<open>Properties of TaskPool\<close>

lemma update_absent: "map_of al k = None \<Longrightarrow> AList.update k v al = al @ [(k, v)]"
  by (induction al) (auto split: if_splits)

lemma filter_absent: "map_of al k = None \<Longrightarrow> filter (\<lambda>kv. fst kv = k) al = []"
  by (induction al) (auto split: if_splits)

lemma has_key_update: "has_key (AList.update k v al) k"
  by (simp add: has_key_def update_conv')

lemma update_task_metrics_metadata:
  "task_metadata (update_task_metrics now t ev tp) = task_metadata tp"
  by (simp add: update_task_metrics_def split: option.splits task_event.splits)

lemma TaskPool_acquire_body_cases:
  "TaskPool_acquire_body now task_id timeout ctx tp = (res, tp') \<Longrightarrow>
     (res = Inl ValueError \<and> task_id = [] \<and> tp' = tp)
   \<or> (res = Inr False \<and> has_key (task_metadata tp) task_id \<and> tp' = tp)
   \<or> (\<exists>e. res = Inl e \<and> fst (acquire now timeout (Some task_id) (resource_pool tp)) = Inl e
          \<and> task_metadata tp' = task_metadata tp)
   \<or> (res = Inr True \<and> task_id \<noteq> [] \<and> \<not> has_key (task_metadata tp) task_id
        \<and> (\<exists>r. fst (acquire now timeout (Some task_id) (resource_pool tp)) = Inr r)
        \<and> (\<exists>m. task_metadata tp' = AList.update task_id m (task_metadata tp)))"
  unfolding TaskPool_acquire_body_def
  by (auto simp: Let_def update_task_metrics_metadata split: if_splits prod.splits sum.splits)

lemma slots_held_update_absent:
  "\<not> has_key al k \<Longrightarrow>
   length (filter (\<lambda>kv. fst kv = t) (AList.update k v al))
     = length (filter (\<lambda>kv. fst kv = t) al) + (if t = k then 1 else 0)"
  by (auto simp: has_key_def update_absent split: option.splits)

lemma slots_held_absent: "\<not> has_key al k \<Longrightarrow> length (filter (\<lambda>kv. fst kv = k) al) = 0"
  by (auto simp: has_key_def filter_absent split: option.splits)

text \<open>
  Claim C10. \<open>TaskPool.acquire\<close> never raises: on every input its result is a boolean.
  It is \<open>False\<close>, with the pool untouched, for an empty task id and for a task id that
  already holds a slot; it is \<open>False\<close> when the underlying pool acquisition raises
  (a timeout included). A \<open>True\<close> result means that the task id held no slot before and
  has its slot recorded now, and no task id ever has more than one entry.
\<close>

theorem TaskPool_acquire_returns_bool:
  fixes now timeout :: rat and task_id :: string and ctx :: "(string, string) dict option" and tp :: task_pool
  defines "out \<equiv> TaskPool_acquire now task_id timeout ctx tp"
  shows "(\<exists>b. fst out = Inr b)
   \<and> (task_id = [] \<longrightarrow> out = (Inr False, tp))
   \<and> (has_key (task_metadata tp) task_id \<longrightarrow> out = (Inr False, tp))
   \<and> ((\<exists>e. fst (acquire now timeout (Some task_id) (resource_pool tp)) = Inl e)
        \<longrightarrow> fst out = Inr False)
   \<and> (fst out = Inr True \<longrightarrow>
        \<not> has_key (task_metadata tp) task_id \<and> has_key (task_metadata (snd out)) task_id)
   \<and> ((\<forall>t. slots_held tp t \<le> 1) \<longrightarrow> (\<forall>t. slots_held (snd out) t \<le> 1))"
proof -
  obtain res tp' where body: "TaskPool_acquire_body now task_id timeout ctx tp = (res, tp')"
    by (cases "TaskPool_acquire_body now task_id timeout ctx tp")
  have out: "out = (case res of Inl e \<Rightarrow> (Inr False, tp') | Inr b \<Rightarrow> (Inr b, tp'))"
    by (simp add: out_def TaskPool_acquire_def body)
  have c1: "\<exists>b. fst out = Inr b"
    by (cases res) (auto simp: out)
  have c2: "task_id = [] \<longrightarrow> out = (Inr False, tp)"
    by (simp add: out_def TaskPool_acquire_def TaskPool_acquire_body_def)
  have c3: "has_key (task_metadata tp) task_id \<longrightarrow> out = (Inr False, tp)"
    by (simp add: out_def TaskPool_acquire_def TaskPool_acquire_body_def)
  have c4: "(\<exists>e. fst (acquire now timeout (Some task_id) (resource_pool tp)) = Inl e)
              \<longrightarrow> fst out = Inr False"
    using TaskPool_acquire_body_cases [OF body] by (auto simp: out)
  have c5: "fst out = Inr True \<longrightarrow>
              \<not> has_key (task_metadata tp) task_id \<and> has_key (task_metadata (snd out)) task_id"
    using TaskPool_acquire_body_cases [OF body] by (auto simp: out has_key_update)
  have c6: "(\<forall>t. slots_held tp t \<le> 1) \<longrightarrow> (\<forall>t. slots_held (snd out) t \<le> 1)"
  proof (intro impI allI)
    fix t
    assume h: "\<forall>t. slots_held tp t \<le> 1"
    have snd_out: "snd out = tp'" by (simp add: out split: sum.splits)
    from TaskPool_acquire_body_cases [OF body]
    consider "task_metadata tp' = task_metadata tp"
      | m where "\<not> has_key (task_metadata tp) task_id"
          "task_metadata tp' = AList.update task_id m (task_metadata tp)"
      by auto
    then show "slots_held (snd out) t \<le> 1"
    proof cases
      case 1
      with h show ?thesis by (simp add: snd_out slots_held_def)
    next
      case 2
      show ?thesis
      proof (cases "t = task_id")
        case True
        with 2 show ?thesis
          by (simp add: snd_out slots_held_def slots_held_update_absent slots_held_absent)
      next
        case False
        with 2 h [rule_format, of t] show ?thesis
          by (simp add: snd_out slots_held_def slots_held_update_absent)
      qed
    qed
  qed
  from c1 c2 c3 c4 c5 c6 show ?thesis by blast
qed

theorem TaskPool_acquire_returns_bool_witness:
  "fst (TaskPool_acquire 0 [] 30 None example_task_pool) = Inr False
   \<and> fst (TaskPool_acquire 0 ''t1'' 30 None example_task_pool) = Inr True
   \<and> has_key (task_metadata (snd (TaskPool_acquire 0 ''t1'' 30 None example_task_pool))) ''t1''
   \<and> fst (TaskPool_acquire 1 ''t1'' 30 None (snd (TaskPool_acquire 0 ''t1'' 30 None example_task_pool)))
        = Inr False
   \<and> fst (acquire 1 30 (Some ''t2'')
            (resource_pool (snd (TaskPool_acquire 0 ''t1'' 30 None example_task_pool))))
        = Inl TimeoutError
   \<and> fst (TaskPool_acquire 1 ''t2'' 30 None (snd (TaskPool_acquire 0 ''t1'' 30 None example_task_pool)))
        = Inr False
   \<and> slots_held (snd (TaskPool_acquire 0 ''t1'' 30 None example_task_pool)) ''t1'' = 1"
proof -
  let ?tp1 = "snd (TaskPool_acquire 0 ''t1'' 30 None example_task_pool)"
  have tp1: "?tp1 = \<lparr> resource_pool =
        \<lparr> semaphore = 0, resources = [],
          in_use = [(Some ''t1'', \<lparr> resource = 0, acquired_at = 0, last_activity = 0 \<rparr>)],
          max_size = 1,
          resource_metrics = Some [(Some ''t1'',
             \<lparr> acquire_time = 0, acquisitions = 1, last_release = None, total_usage_time = None \<rparr>)],
          heap_next = 1 \<rparr>,
       task_metadata = [(''t1'', \<lparr> task_resource = 0, started_at = 0, meta_context = [],
                                   task_status = ''running'' \<rparr>)],
       task_metrics = Some [(''t1'', \<lparr> start_time = 0, executions = 1, end_time = None,
                                       total_execution_time = None \<rparr>)] \<rparr>"
    by (simp add: TaskPool_acquire_def TaskPool_acquire_body_def example_task_pool_def
          example_pool_def has_key_def acquire_def create_resource_def
          update_acquisition_metrics_def update_task_metrics_def Let_def)
  have empty: "fst (TaskPool_acquire 0 [] 30 None example_task_pool) = Inr False"
    using TaskPool_acquire_returns_bool [of 0 "[]" 30 None example_task_pool] by simp
  have first: "fst (TaskPool_acquire 0 ''t1'' 30 None example_task_pool) = Inr True"
    by (simp add: TaskPool_acquire_def TaskPool_acquire_body_def example_task_pool_def
          example_pool_def has_key_def acquire_def create_resource_def
          update_acquisition_metrics_def update_task_metrics_def Let_def)
  have recorded: "has_key (task_metadata ?tp1) ''t1''"
    using first TaskPool_acquire_returns_bool [of 0 "''t1''" 30 None example_task_pool] by simp
  have again: "fst (TaskPool_acquire 1 ''t1'' 30 None ?tp1) = Inr False"
    using recorded TaskPool_acquire_returns_bool [of 1 "''t1''" 30 None ?tp1] by simp
  have full: "fst (acquire 1 30 (Some ''t2'') (resource_pool ?tp1)) = Inl TimeoutError"
    by (simp add: tp1 acquire_def)
  have other: "fst (TaskPool_acquire 1 ''t2'' 30 None ?tp1) = Inr False"
    using full TaskPool_acquire_returns_bool [of 1 "''t2''" 30 None ?tp1] by auto
  have init: "\<forall>t. slots_held example_task_pool t \<le> 1"
    by (simp add: slots_held_def example_task_pool_def)
  have "slots_held ?tp1 ''t1'' \<le> 1"
    using init TaskPool_acquire_returns_bool [of 0 "''t1''" 30 None example_task_pool] by blast
  moreover have "slots_held ?tp1 ''t1'' \<ge> 1"
    by (simp add: tp1 slots_held_def)
  ultimately have one: "slots_held ?tp1 ''t1'' = 1" by simp
  from empty first recorded again full other one show ?thesis by blast
qed

section \<open>Properties of RateLimitMiddleware\<close>

text \<open>
  Claim C1, amended. When the counter store is unreachable, or the store call raises
  (which the call as written does on every call), \<open>check_rate_limit\<close> fails closed: it
  answers \<open>allowed = False\<close> with no remaining requests and a backoff of the default
  window (60 seconds), and it records the condition by adding one to the
  \<open>rate_limit_errors\<close> metric; nothing else changes.
\<close>

theorem check_rate_limit_fails_closed:
  "(\<not> reachable (cache m) \<longrightarrow>
      check_rate_limit now domain client_id m
        = ((False, 0, Some 60), m\<lparr>rate_limit_errors := Suc (rate_limit_errors m)\<rparr>))
   \<and> check_rate_limit now domain client_id m
        = ((False, 0, Some 60), m\<lparr>rate_limit_errors := Suc (rate_limit_errors m)\<rparr>)"
  by (simp add: check_rate_limit_def rate_limit_failed_def DEFAULT_WINDOW_SECONDS_def)

theorem check_rate_limit_fails_closed_witness:
  "\<not> reachable (cache unreachable_limiter)
   \<and> fst (check_rate_limit 0 ''example.com'' None unreachable_limiter) = (False, 0, Some 60)
   \<and> rate_limit_errors (snd (check_rate_limit 0 ''example.com'' None unreachable_limiter)) = 1"
proof -
  have h: "\<not> reachable (cache unreachable_limiter)"
    by (simp add: unreachable_limiter_def RateLimitMiddleware_init_def)
  have e: "rate_limit_errors unreachable_limiter = 0"
    by (simp add: unreachable_limiter_def RateLimitMiddleware_init_def)
  from check_rate_limit_fails_closed [of unreachable_limiter 0 "''example.com''" None] h e
  show ?thesis by simp
qed

text \<open>
  Claim C1 as stated fails: with an unreachable store the request is rejected, not
  admitted.
\<close>

theorem unreachable_store_rejects:
  "fst (check_rate_limit 0 ''example.com'' None unreachable_limiter) = (False, 0, Some 60)"
  by (simp add: check_rate_limit_def unreachable_limiter_def RateLimitMiddleware_init_def
        rate_limit_failed_def DEFAULT_WINDOW_SECONDS_def)

text \<open>
  Claim C7 (the code departs from it). For the bucket with limit 5 and burst multiplier 0
  and a store that can be reached, the claim has the first five calls of a window
  admitted. The store call raises \<open>TypeError\<close> each time and the handler fails closed:
  all six calls, the first included, answer \<open>allowed = False\<close>, no request is admitted,
  and each call adds one to \<open>rate_limit_errors\<close>.
\<close>

theorem keyword_eval_rejects_every_call:
  "reachable (cache (example_limiter 5 0))
   \<and> fst (check_rate_limit 0 ''example.com'' None (example_limiter 5 0)) = (False, 0, Some 60)
   \<and> fst (check_all [0, 1, 2, 3, 4, 5] ''example.com'' None (example_limiter 5 0))
       = [False, False, False, False, False, False]
   \<and> admitted (fst (check_all [0, 1, 2, 3, 4, 5] ''example.com'' None (example_limiter 5 0))) = 0
   \<and> rate_limit_errors
        (snd (check_all [0, 1, 2, 3, 4, 5] ''example.com'' None (example_limiter 5 0))) = 6"
  by (simp add: check_rate_limit_def example_limiter_def RateLimitMiddleware_init_def
        rate_limit_failed_def DEFAULT_WINDOW_SECONDS_def admitted_def)

section \<open>Properties of TaskScheduler\<close>

lemma schedule_task_attempt_invalid:
  "task_config = [] \<or> \<not> has_key task_config ''url'' \<Longrightarrow>
   schedule_task_attempt add_job task_id task_config priority now s = (Inl ValueError, s)"
  by (simp add: schedule_task_attempt_def)

lemma schedule_task_attempt_rejects:
  assumes "task_config \<noteq> []" and "has_key task_config ''url''"
    and "current_state now (circuit_breaker s) = Open \<or> has_key (active_tasks s) task_id"
  shows "fst (schedule_task_attempt add_job task_id task_config priority now s) = Inr False
       \<and> active_tasks (snd (schedule_task_attempt add_job task_id task_config priority now s))
           = active_tasks s
       \<and> browser_manager (snd (schedule_task_attempt add_job task_id task_config priority now s))
           = browser_manager s
       \<and> circuit_breaker (snd (schedule_task_attempt add_job task_id task_config priority now s))
           = circuit_breaker s"
  using assms by (auto simp: schedule_task_attempt_def Let_def)

lemma tenacity_retry_first_success:
  "f now s = (Inr v, s') \<Longrightarrow> tenacity_retry (Suc n) f now s = (Inr v, s')"
  by simp

text \<open>
  Claim C4, amended. With a valid configuration (not empty, with a \<open>url\<close> entry),
  \<open>schedule_task\<close> returns \<open>False\<close> without raising when the global breaker is Open or
  the task id already exists, and the map of active tasks, the existing entry included,
  is left as it was. With an invalid configuration every attempt raises \<open>ValueError\<close>
  and the call raises (the retry decorator's \<open>RetryError\<close> after the third attempt),
  leaving the scheduler unchanged.
\<close>

theorem schedule_task_rejections:
  "(task_config \<noteq> [] \<and> has_key task_config ''url''
      \<and> (current_state now (circuit_breaker s) = Open \<or> has_key (active_tasks s) task_id)
     \<longrightarrow> fst (schedule_task add_job task_id task_config priority now s) = Inr False
         \<and> active_tasks (snd (schedule_task add_job task_id task_config priority now s))
             = active_tasks s)
   \<and> (task_config = [] \<or> \<not> has_key task_config ''url''
     \<longrightarrow> schedule_task_attempt add_job task_id task_config priority now s = (Inl ValueError, s)
         \<and> schedule_task add_job task_id task_config priority now s = (Inl RetryError, s))"
proof (intro conjI impI)
  assume h: "task_config \<noteq> [] \<and> has_key task_config ''url''
      \<and> (current_state now (circuit_breaker s) = Open \<or> has_key (active_tasks s) task_id)"
  let ?a = "schedule_task_attempt add_job task_id task_config priority now s"
  from h have r: "fst ?a = Inr False \<and> active_tasks (snd ?a) = active_tasks s"
    using schedule_task_attempt_rejects [of task_config now s task_id add_job priority] by blast
  then have "?a = (Inr False, snd ?a)" by (cases ?a) simp
  then have eq: "schedule_task add_job task_id task_config priority now s = (Inr False, snd ?a)"
    unfolding schedule_task_def
    using tenacity_retry_first_success
            [of "schedule_task_attempt add_job task_id task_config priority" now s False "snd ?a" 2]
    by (simp add: numeral_3_eq_3)
  show "fst (schedule_task add_job task_id task_config priority now s) = Inr False"
    by (simp add: eq)
  show "active_tasks (snd (schedule_task add_job task_id task_config priority now s))
          = active_tasks s"
    using r by (simp add: eq)
next
  assume h: "task_config = [] \<or> \<not> has_key task_config ''url''"
  have a: "\<And>t. schedule_task_attempt add_job task_id task_config priority t s = (Inl ValueError, s)"
    using h by (simp add: schedule_task_attempt_invalid)
  show "schedule_task_attempt add_job task_id task_config priority now s = (Inl ValueError, s)"
    by (rule a)
  show "schedule_task add_job task_id task_config priority now s = (Inl RetryError, s)"
    by (simp add: schedule_task_def numeral_3_eq_3 a)
qed

theorem schedule_task_rejections_witness:
  "fst (schedule_task (Inr example_job) ''t1'' example_config None 0 example_scheduler) = Inr False
   \<and> active_tasks (snd (schedule_task (Inr example_job) ''t1'' example_config None 0
        example_scheduler)) = active_tasks example_scheduler
   \<and> fst (schedule_task (Inr example_job) ''t2'' example_config None 1 open_scheduler) = Inr False
   \<and> schedule_task (Inr example_job) ''t2'' [] None 0 example_scheduler
       = (Inl RetryError, example_scheduler)"
proof -
  have cfg: "example_config \<noteq> [] \<and> has_key example_config ''url''"
    by (simp add: example_config_def has_key_def)
  have dup: "has_key (active_tasks example_scheduler) ''t1''"
    by (simp add: example_scheduler_def has_key_def)
  have opn: "current_state 1 (circuit_breaker open_scheduler) = Open"
    by (simp add: open_scheduler_def current_state_def)
  from schedule_task_rejections
         [of example_config 0 example_scheduler "''t1''" "Inr example_job" None] cfg dup
  have a: "fst (schedule_task (Inr example_job) ''t1'' example_config None 0 example_scheduler)
             = Inr False
           \<and> active_tasks (snd (schedule_task (Inr example_job) ''t1'' example_config None 0
               example_scheduler)) = active_tasks example_scheduler"
    by blast
  from schedule_task_rejections
         [of example_config 1 open_scheduler "''t2''" "Inr example_job" None] cfg opn
  have b: "fst (schedule_task (Inr example_job) ''t2'' example_config None 1 open_scheduler)
             = Inr False"
    by blast
  from schedule_task_rejections
         [of "[]" 0 example_scheduler "''t2''" "Inr example_job" None]
  have c: "schedule_task (Inr example_job) ''t2'' [] None 0 example_scheduler
             = (Inl RetryError, example_scheduler)"
    by simp
  from a b c show ?thesis by blast
qed

text \<open>
  Claim C4 as stated fails: a configuration without a \<open>url\<close> entry makes the call
  raise instead of returning \<open>False\<close>.
\<close>

theorem schedule_task_invalid_config_raises:
  "fst (schedule_task (Inr example_job) ''t2'' [(''name'', ''shop'')] None 0 example_scheduler)
     = Inl RetryError
   \<and> fst (schedule_task_attempt (Inr example_job) ''t2'' [(''name'', ''shop'')] None 0
            example_scheduler) = Inl ValueError"
  by (simp add: schedule_task_def schedule_task_attempt_def has_key_def numeral_3_eq_3)

section \<open>Properties of BrowserManager and of task execution\<close>

text \<open>
  \<open>get_browser\<close> files the handle in the pool under the key \<open>None\<close> and in the active
  map under \<open>str(id(browser))\<close>; \<open>release_browser\<close> asks the pool to release that
  second key, which the pool does not hold. So whenever the pool's in-use map has no key
  but \<open>None\<close> (all it can get from the manager), the release that follows an
  acquisition answers \<open>False\<close>, the handle stays in the active map and that release
  does not give the semaphore unit back.
\<close>

lemma has_key_update_other: "k' \<noteq> k \<Longrightarrow> has_key (AList.update k v al) k' = has_key al k'"
  by (simp add: has_key_def update_conv')

lemma get_browser_success:
  assumes "get_browser now opts bm = (Inr b, bm')"
  shows "\<exists>t p'. acquire now t None (browser_pool bm) = (Inr b, p')
           \<and> bm' = bm\<lparr>browser_pool := p',
                       active_browsers := AList.update (str_nat b) b (active_browsers bm),
                       active_gauge := active_gauge bm + 1\<rparr>"
  using assms
  by (auto simp: get_browser_def Let_def split: prod.splits sum.splits)

lemma release_browser_after_get_browser:
  assumes got: "get_browser now opts bm = (Inr b, bm')"
    and keys: "\<And>k. has_key (in_use (browser_pool bm)) k \<Longrightarrow> k = None"
  shows "fst (release_browser now' cleanup_raises (str_nat b) bm') = False
       \<and> active_browsers (snd (release_browser now' cleanup_raises (str_nat b) bm'))
           = AList.update (str_nat b) b (active_browsers bm)
       \<and> semaphore (browser_pool (snd (release_browser now' cleanup_raises (str_nat b) bm')))
           = semaphore (browser_pool bm) - 1"
proof -
  from get_browser_success [OF got] obtain t p' where
    acq: "acquire now t None (browser_pool bm) = (Inr b, p')"
    and bm': "bm' = bm\<lparr>browser_pool := p',
                    active_browsers := AList.update (str_nat b) b (active_browsers bm),
                    active_gauge := active_gauge bm + 1\<rparr>"
    by blast
  from acquire_success [OF acq] obtain e where
    iu: "in_use p' = AList.update None e (in_use (browser_pool bm))"
    and sem: "semaphore p' = semaphore (browser_pool bm) - 1"
    by blast
  have "\<not> has_key (in_use p') (Some (str_nat b))"
    using keys [of "Some (str_nat b)"] by (auto simp: iu has_key_update_other)
  then have rel: "release now' b (Some (str_nat b)) p' = (False, p')"
    by (simp add: release_def)
  show ?thesis
    by (simp add: release_browser_def bm' update_conv' rel sem)
qed

text \<open>
  Claim C3 (the code departs from it). A scheduled task is executed on a manager with two
  free slots; the stub body completes. After \<open>execute_task\<close> the handle is still in the
  active map and the pool still has one slot less, whether the handle's cleanup raises or
  not, and \<open>release_browser\<close> for the id made at acquisition answers \<open>False\<close>.
\<close>

theorem execute_task_keeps_the_browser:
  "fst (execute_task False None ''t1'' 1 example_scheduler) = Inr ''completed''
   \<and> active_browsers (browser_manager example_scheduler) = []
   \<and> semaphore (browser_pool (browser_manager example_scheduler)) = 2
   \<and> active_browsers (browser_manager (snd (execute_task False None ''t1'' 1 example_scheduler)))
       = [(''0'', 0)]
   \<and> semaphore (browser_pool (browser_manager
        (snd (execute_task False None ''t1'' 1 example_scheduler)))) = 1
   \<and> active_browsers (browser_manager (snd (execute_task True None ''t1'' 1 example_scheduler)))
       = [(''0'', 0)]
   \<and> semaphore (browser_pool (browser_manager
        (snd (execute_task True None ''t1'' 1 example_scheduler)))) = 1
   \<and> fst (get_browser 1 browser_context_options example_manager) = Inr 0
   \<and> fst (release_browser 1 False (str_nat 0)
            (snd (get_browser 1 browser_context_options example_manager))) = False
   \<and> fst (release_browser 1 True (str_nat 0)
            (snd (get_browser 1 browser_context_options example_manager))) = False"
  by (simp add: execute_task_def execute_task_attempt_def example_scheduler_def
        example_manager_def new_breaker_def current_state_def get_browser_def
        browser_context_options_def dict_merge_def acquire_def create_resource_def
        update_acquisition_metrics_def release_browser_def release_def has_key_def
        str_nat.simps digit_char_def numeral_3_eq_3 Let_def)

section \<open>Properties of ProxyService\<close>

lemma quotient_in_unit_interval:
  fixes s f :: int
  assumes "0 \<le> s" and "0 \<le> f" and "s + f \<noteq> 0"
  shows "0 \<le> (of_int s :: rat) / of_int (s + f) \<and> (of_int s :: rat) / of_int (s + f) \<le> 1"
proof -
  have pos: "(0::rat) < of_int (s + f)" using assms by simp
  have le: "(of_int s :: rat) \<le> of_int (s + f)" using assms by simp
  have "0 \<le> (of_int s :: rat)" using assms by simp
  with pos le show ?thesis by (simp add: divide_le_eq)
qed

text \<open>
  Claim C8. For a tracked proxy whose counters are not negative (they start at zero and
  are only ever incremented), a success report and a failure report each increment their
  counter and store, in the same call, the health score
  \<open>success_count / (success_count + failure_count)\<close> of the new counters, a value
  between 0 and 1; the call does not raise. A freshly added proxy has no reports and
  health score 1.
\<close>

theorem health_score_recomputed:
  "(map_of (proxy_metrics svc) url = Some m \<and> 0 \<le> success_count m \<and> 0 \<le> failure_count m
     \<longrightarrow>
     (\<exists>m'. fst (record_success now url d svc) = Inr ()
         \<and> map_of (proxy_metrics (snd (record_success now url d svc))) url = Some m'
         \<and> success_count m' = success_count m + 1 \<and> failure_count m' = failure_count m
         \<and> health_score m' = of_int (success_count m') / of_int (success_count m' + failure_count m')
         \<and> 0 \<le> health_score m' \<and> health_score m' \<le> 1)
     \<and> (\<exists>m'. fst (record_failure url svc) = Inr ()
         \<and> map_of (proxy_metrics (snd (record_failure url svc))) url = Some m'
         \<and> success_count m' = success_count m \<and> failure_count m' = failure_count m + 1
         \<and> health_score m' = of_int (success_count m') / of_int (success_count m' + failure_count m')
         \<and> 0 \<le> health_score m' \<and> health_score m' \<le> 1))
   \<and> map_of (proxy_metrics (add_proxy True url svc)) url = Some new_ProxyMetrics
   \<and> health_score new_ProxyMetrics = 1
   \<and> success_count new_ProxyMetrics = 0 \<and> failure_count new_ProxyMetrics = 0"
proof (intro conjI impI)
  assume h: "map_of (proxy_metrics svc) url = Some m \<and> 0 \<le> success_count m \<and> 0 \<le> failure_count m"
  then have nz1: "success_count m + 1 + failure_count m \<noteq> 0"
    and nz2: "success_count m + (failure_count m + 1) \<noteq> 0" by auto
  from h quotient_in_unit_interval [of "success_count m + 1" "failure_count m"]
  have q1: "0 \<le> (of_int (success_count m + 1) :: rat) / of_int (success_count m + 1 + failure_count m)
          \<and> (of_int (success_count m + 1) :: rat) / of_int (success_count m + 1 + failure_count m) \<le> 1"
    by simp
  from h quotient_in_unit_interval [of "success_count m" "failure_count m + 1"]
  have q2: "0 \<le> (of_int (success_count m) :: rat) / of_int (success_count m + (failure_count m + 1))
          \<and> (of_int (success_count m) :: rat) / of_int (success_count m + (failure_count m + 1)) \<le> 1"
    by simp
  show "\<exists>m'. fst (record_success now url d svc) = Inr ()
         \<and> map_of (proxy_metrics (snd (record_success now url d svc))) url = Some m'
         \<and> success_count m' = success_count m + 1 \<and> failure_count m' = failure_count m
         \<and> health_score m' = of_int (success_count m') / of_int (success_count m' + failure_count m')
         \<and> 0 \<le> health_score m' \<and> health_score m' \<le> 1"
    using h nz1 q1 by (simp add: record_success_def Let_def update_conv')
  show "\<exists>m'. fst (record_failure url svc) = Inr ()
         \<and> map_of (proxy_metrics (snd (record_failure url svc))) url = Some m'
         \<and> success_count m' = success_count m \<and> failure_count m' = failure_count m + 1
         \<and> health_score m' = of_int (success_count m') / of_int (success_count m' + failure_count m')
         \<and> 0 \<le> health_score m' \<and> health_score m' \<le> 1"
    using h nz2 q2 by (simp add: record_failure_def Let_def update_conv')
next
  show "map_of (proxy_metrics (add_proxy True url svc)) url = Some new_ProxyMetrics"
    by (simp add: add_proxy_def update_conv')
qed (simp_all add: new_ProxyMetrics_def)

theorem health_score_recomputed_witness:
  "map_of (proxy_metrics two_proxies) ''A'' = Some new_ProxyMetrics
   \<and> fst (record_failure ''A'' two_proxies) = Inr ()
   \<and> map_of (proxy_metrics (snd (record_failure ''A'' two_proxies))) ''A''
       = Some (new_ProxyMetrics\<lparr>failure_count := 1, health_score := 0\<rparr>)
   \<and> fst (record_success 5 ''A'' 2 (snd (record_failure ''A'' two_proxies))) = Inr ()
   \<and> map_of (proxy_metrics (snd (record_success 5 ''A'' 2 (snd (record_failure ''A'' two_proxies)))))
        ''A''
       = Some \<lparr> success_count = 1, failure_count = 1, total_latency = 2, last_used = 0,
                last_success = 5, health_score = 1 / 2 \<rparr>"
proof -
  have a: "map_of (proxy_metrics two_proxies) ''A'' = Some new_ProxyMetrics"
    by (simp add: two_proxies_def add_proxy_def)
  have n: "0 \<le> success_count new_ProxyMetrics \<and> 0 \<le> failure_count new_ProxyMetrics"
    by (simp add: new_ProxyMetrics_def)
  from health_score_recomputed [of two_proxies "''A''" new_ProxyMetrics 5 2] a n
  have f: "fst (record_failure ''A'' two_proxies) = Inr ()" by blast
  have f': "map_of (proxy_metrics (snd (record_failure ''A'' two_proxies))) ''A''
       = Some (new_ProxyMetrics\<lparr>failure_count := 1, health_score := 0\<rparr>)"
    by (simp add: two_proxies_def add_proxy_def record_failure_def new_ProxyMetrics_def Let_def)
  have n': "0 \<le> success_count (new_ProxyMetrics\<lparr>failure_count := 1, health_score := 0\<rparr>)
          \<and> 0 \<le> failure_count (new_ProxyMetrics\<lparr>failure_count := 1, health_score := 0\<rparr>)"
    by (simp add: new_ProxyMetrics_def)
  from health_score_recomputed
         [of "snd (record_failure ''A'' two_proxies)" "''A''"
             "new_ProxyMetrics\<lparr>failure_count := 1, health_score := 0\<rparr>" 5 2] f' n'
  have s: "fst (record_success 5 ''A'' 2 (snd (record_failure ''A'' two_proxies))) = Inr ()"
    by blast
  have s': "map_of (proxy_metrics (snd (record_success 5 ''A'' 2 (snd (record_failure ''A'' two_proxies)))))
        ''A''
       = Some \<lparr> success_count = 1, failure_count = 1, total_latency = 2, last_used = 0,
                last_success = 5, health_score = 1 / 2 \<rparr>"
    by (simp add: two_proxies_def add_proxy_def record_failure_def record_success_def
          new_ProxyMetrics_def Let_def)
  from a f f' s s' show ?thesis by blast
qed

text \<open>
  For a registry in which every proxy with a breaker has metrics, the list that
  \<open>get_proxy\<close> builds is the list \<open>qualifying\<close> of the specification, and
  \<open>max_by\<close> returns the first of its elements with the largest key.
\<close>

lemma healthy_proxies_tracked:
  "list_all (\<lambda>kv. has_key ms (fst kv)) cbs \<Longrightarrow>
   healthy_proxies now ms cbs
     = Inr (map fst (filter (\<lambda>kv. \<not> cb_is_open now (snd kv)
                                  \<and> PROXY_SUCCESS_THRESHOLD \<le> score ms (fst kv)) cbs))"
proof (induction cbs)
  case Nil
  show ?case by simp
next
  case (Cons kv cbs)
  obtain u cb where kv: "kv = (u, cb)" by (cases kv)
  from Cons.prems obtain m where m: "map_of ms u = Some m"
    by (auto simp: kv has_key_def split: option.splits)
  from Cons have ih: "healthy_proxies now ms cbs
     = Inr (map fst (filter (\<lambda>kv. \<not> cb_is_open now (snd kv)
                                  \<and> PROXY_SUCCESS_THRESHOLD \<le> score ms (fst kv)) cbs))"
    by simp
  show ?case by (simp add: kv m ih score_def)
qed

lemma healthy_proxies_qualifying:
  "tracked svc \<Longrightarrow>
   healthy_proxies now (proxy_metrics svc) (circuit_breakers svc) = Inr (qualifying now svc)"
  unfolding tracked_def qualifying_def
  by (simp add: healthy_proxies_tracked qualifies_def [abs_def])

lemma max_by_first_maximum:
  "\<exists>ys zs. b # xs = ys @ max_by f b xs # zs
     \<and> (\<forall>y\<in>set ys. f y < f (max_by f b xs))
     \<and> (\<forall>z\<in>set zs. f z \<le> f (max_by f b xs))"
proof (induction xs arbitrary: b)
  case Nil
  show ?case by (intro exI [of _ "[]"]) simp
next
  case (Cons x xs)
  define c where "c = (if f b < f x then x else b)"
  define m where "m = max_by f c xs"
  have m: "max_by f b (x # xs) = m" by (simp add: m_def c_def)
  from Cons.IH [of c] obtain ys zs where
    d: "c # xs = ys @ m # zs" and lo: "\<forall>y\<in>set ys. f y < f m" and hi: "\<forall>z\<in>set zs. f z \<le> f m"
    unfolding m_def by blast
  have "c \<in> set (ys @ m # zs)" by (subst d [symmetric]) simp
  with lo hi have top: "f c \<le> f m" by (auto simp: less_imp_le)
  have goal: "\<exists>ys zs. b # x # xs = ys @ m # zs
     \<and> (\<forall>y\<in>set ys. f y < f m) \<and> (\<forall>z\<in>set zs. f z \<le> f m)"
  proof (cases "f b < f x")
    case True
    then have cx: "c = x" by (simp add: c_def)
    from d cx have "b # x # xs = (b # ys) @ m # zs" by simp
    moreover from True top cx have "f b < f m" by simp
    ultimately show ?thesis using lo hi
      by (intro exI [of _ "b # ys"] exI [of _ zs]) simp
  next
    case False
    then have cb: "c = b" by (simp add: c_def)
    show ?thesis
    proof (cases ys)
      case Nil
      with d cb have bm: "m = b" and "xs = zs" by simp_all
      then have "b # x # xs = [] @ m # (x # zs)" by simp
      moreover from False bm have "f x \<le> f m" by simp
      ultimately show ?thesis using hi
        by (intro exI [of _ "[]"] exI [of _ "x # zs"]) simp
    next
      case (Cons y ys')
      with d cb have y: "y = b" and xs: "xs = ys' @ m # zs" by simp_all
      from lo Cons y have bm: "f b < f m" by simp
      with False have "f x < f m" by simp
      moreover from xs have "b # x # xs = (b # x # ys') @ m # zs" by simp
      ultimately show ?thesis using lo hi Cons y bm
        by (intro exI [of _ "b # x # ys'"] exI [of _ zs]) simp
    qed
  qed
  show ?case unfolding m by (rule goal)
qed

lemma get_proxy_attempt_failure_keeps_state:
  "get_proxy_attempt now svc = (Inl e, svc') \<Longrightarrow> svc' = svc"
  by (auto simp: get_proxy_attempt_def Let_def split: sum.splits list.splits)

text \<open>
  Claim C5, amended. \<open>get_proxy\<close> considers only the proxies whose breaker is not Open
  and whose health score is at least the success threshold. When none qualifies the
  attempt raises the no-healthy-proxy error (\<open>RuntimeError\<close>) and leaves the registry as
  it is; when some qualify the call returns at its first attempt a qualifying proxy with
  the highest health score, and among proxies with that score the one that comes first in
  the registry's insertion order (every qualifying proxy before it has a strictly lower
  score). The time of last use plays no part in the choice.
\<close>

theorem get_proxy_selection:
  assumes "tracked svc"
  shows "(qualifying now svc = [] \<longrightarrow>
            get_proxy_attempt now svc = (Inl RuntimeError, svc))
       \<and> (qualifying now svc \<noteq> [] \<longrightarrow>
            get_proxy delays now svc = get_proxy_attempt now svc
            \<and> (\<exists>url ys zs. fst (get_proxy_attempt now svc) = Inr url
                  \<and> qualifying now svc = ys @ url # zs
                  \<and> (\<forall>y\<in>set ys. score (proxy_metrics svc) y < score (proxy_metrics svc) url)
                  \<and> (\<forall>z\<in>set zs. score (proxy_metrics svc) z \<le> score (proxy_metrics svc) url)))"
proof (intro conjI impI)
  assume "qualifying now svc = []"
  with assms show "get_proxy_attempt now svc = (Inl RuntimeError, svc)"
    by (simp add: get_proxy_attempt_def healthy_proxies_qualifying)
next
  assume ne: "qualifying now svc \<noteq> []"
  then obtain p ps where q: "qualifying now svc = p # ps" by (cases "qualifying now svc") auto
  let ?url = "max_by (score (proxy_metrics svc)) p ps"
  from assms q have r: "fst (get_proxy_attempt now svc) = Inr ?url"
    by (simp add: get_proxy_attempt_def healthy_proxies_qualifying Let_def)
  from max_by_first_maximum [of p ps "score (proxy_metrics svc)"] q r
  show "\<exists>url ys zs. fst (get_proxy_attempt now svc) = Inr url
                  \<and> qualifying now svc = ys @ url # zs
                  \<and> (\<forall>y\<in>set ys. score (proxy_metrics svc) y < score (proxy_metrics svc) url)
                  \<and> (\<forall>z\<in>set zs. score (proxy_metrics svc) z \<le> score (proxy_metrics svc) url)"
    by auto
  obtain d0 d1 d2 where ds: "delays = (d0, d1, d2)" by (cases delays) auto
  from r obtain svc' where "get_proxy_attempt now svc = (Inr ?url, svc')"
    by (cases "get_proxy_attempt now svc") auto
  then show "get_proxy delays now svc = get_proxy_attempt now svc"
    by (simp add: get_proxy_def ds)
qed

theorem get_proxy_selection_witness:
  "tracked two_proxies
   \<and> qualifying 100 two_proxies = [''A'', ''B'']
   \<and> get_proxy (1, 2, 4) 100 two_proxies = get_proxy_attempt 100 two_proxies
   \<and> fst (get_proxy_attempt 100 two_proxies) = Inr ''A''
   \<and> tracked no_proxies
   \<and> qualifying 100 no_proxies = []
   \<and> get_proxy_attempt 100 no_proxies = (Inl RuntimeError, no_proxies)"
proof -
  have t: "tracked two_proxies"
    by (simp add: tracked_def two_proxies_def add_proxy_def has_key_def)
  have q: "qualifying 100 two_proxies = [''A'', ''B'']"
    by (simp add: qualifying_def qualifies_def two_proxies_def add_proxy_def cb_is_open_def
          current_state_def new_breaker_def score_def new_ProxyMetrics_def
          PROXY_SUCCESS_THRESHOLD_def)
  have a: "fst (get_proxy_attempt 100 two_proxies) = Inr ''A''"
    by (simp add: get_proxy_attempt_def two_proxies_def add_proxy_def cb_is_open_def
          current_state_def new_breaker_def score_def new_ProxyMetrics_def
          PROXY_SUCCESS_THRESHOLD_def Let_def)
  have t0: "tracked no_proxies"
    by (simp add: tracked_def no_proxies_def)
  have q0: "qualifying 100 no_proxies = []"
    by (simp add: qualifying_def no_proxies_def)
  from get_proxy_selection [OF t, of 100 "(1, 2, 4)"] q
  have g: "get_proxy (1, 2, 4) 100 two_proxies = get_proxy_attempt 100 two_proxies" by simp
  from get_proxy_selection [OF t0, of 100 "(1, 2, 4)"] q0
  have e: "get_proxy_attempt 100 no_proxies = (Inl RuntimeError, no_proxies)" by simp
  from t q g a t0 q0 e show ?thesis by blast
qed

text \<open>
  Claim C5 as stated fails: of two proxies with the same health score the call returns
  \<open>A\<close>, used at time 100, and not \<open>B\<close>, which was never used.
\<close>

theorem get_proxy_ignores_last_used:
  "fst (get_proxy (1, 2, 4) 100 two_proxies) = Inr ''A''
   \<and> map (\<lambda>kv. (fst kv, health_score (snd kv), last_used (snd kv)))
        (proxy_metrics (snd (get_proxy (1, 2, 4) 100 two_proxies)))
       = [(''A'', 1, 100), (''B'', 1, 0)]
   \<and> fst (get_proxy (1, 2, 4) 200 (snd (get_proxy (1, 2, 4) 100 two_proxies))) = Inr ''A''"
  by (simp add: get_proxy_def get_proxy_attempt_def two_proxies_def add_proxy_def cb_is_open_def
        current_state_def new_breaker_def score_def new_ProxyMetrics_def
        PROXY_SUCCESS_THRESHOLD_def Let_def)

text \<open>
  What \<open>get_proxy\<close> returns is a key of \<open>_circuit_breakers\<close>, and it leaves that dict
  as it is; the reports change the metrics only. A failure report that opens a proxy's
  breaker removes the proxy from both dicts, and only \<open>_add_proxy\<close>, fed by the
  upstream source, puts a URL into them.
\<close>

lemma has_key_iff: "has_key al k = (k \<in> fst ` set al)"
proof -
  have "has_key al k = (map_of al k \<noteq> None)"
    by (simp add: has_key_def split: option.splits)
  then show ?thesis by (simp add: map_of_eq_None_iff)
qed

lemma healthy_proxies_subset:
  "healthy_proxies now ms cbs = Inr us \<Longrightarrow> set us \<subseteq> fst ` set cbs"
proof (induction cbs arbitrary: us)
  case Nil
  then show ?case by simp
next
  case (Cons kv cbs)
  obtain u cb where kv: "kv = (u, cb)" by (cases kv)
  from Cons.prems Cons.IH show ?case
    by (auto simp: kv split: if_splits option.splits sum.splits)
qed

lemma max_by_member: "max_by f b xs \<in> set (b # xs)"
proof -
  from max_by_first_maximum [of b xs f] obtain ys zs where
    "b # xs = ys @ max_by f b xs # zs" by blast
  then have "set (b # xs) = set (ys @ max_by f b xs # zs)" by simp
  then show ?thesis by auto
qed

lemma get_proxy_attempt_member:
  assumes "fst (get_proxy_attempt t svc) = Inr u"
  shows "u \<in> fst ` set (circuit_breakers svc)"
proof -
  from assms obtain p ps where
    h: "healthy_proxies t (proxy_metrics svc) (circuit_breakers svc) = Inr (p # ps)"
    and u: "u = max_by (score (proxy_metrics svc)) p ps"
    by (auto simp: get_proxy_attempt_def Let_def split: sum.splits list.splits)
  from max_by_member [of "score (proxy_metrics svc)" p ps] u have "u \<in> set (p # ps)" by simp
  with healthy_proxies_subset [OF h] show ?thesis by blast
qed

lemma get_proxy_attempt_breakers:
  "circuit_breakers (snd (get_proxy_attempt t svc)) = circuit_breakers svc"
  by (simp add: get_proxy_attempt_def Let_def split: sum.splits list.splits)

lemma async_retry_get_proxy:
  "circuit_breakers (snd (async_retry ds get_proxy_attempt t svc)) = circuit_breakers svc
   \<and> (\<forall>u. fst (async_retry ds get_proxy_attempt t svc) = Inr u
          \<longrightarrow> u \<in> fst ` set (circuit_breakers svc))"
proof (induction ds arbitrary: t)
  case Nil
  show ?case by (simp add: get_proxy_attempt_breakers get_proxy_attempt_member)
next
  case (Cons d ds)
  obtain r svc' where a: "get_proxy_attempt t svc = (r, svc')"
    by (cases "get_proxy_attempt t svc")
  show ?case
  proof (cases r)
    case (Inl e)
    with a have "svc' = svc" by (simp add: get_proxy_attempt_failure_keeps_state)
    with a Inl have "async_retry (d # ds) get_proxy_attempt t svc
                      = async_retry ds get_proxy_attempt (t + d) svc" by simp
    with Cons.IH [of "t + d"] show ?thesis by simp
  next
    case (Inr v)
    with a have eq: "async_retry (d # ds) get_proxy_attempt t svc = (Inr v, svc')" by simp
    from a have "svc' = snd (get_proxy_attempt t svc)" by simp
    then have b: "circuit_breakers svc' = circuit_breakers svc"
      by (simp add: get_proxy_attempt_breakers)
    from a Inr have "fst (get_proxy_attempt t svc) = Inr v" by simp
    then have "v \<in> fst ` set (circuit_breakers svc)" by (rule get_proxy_attempt_member)
    with eq b show ?thesis by simp
  qed
qed

lemma get_proxy_breakers:
  "circuit_breakers (snd (get_proxy delays t svc)) = circuit_breakers svc"
  by (cases delays) (simp add: get_proxy_def async_retry_get_proxy del: async_retry.simps)

lemma get_proxy_member:
  "fst (get_proxy delays t svc) = Inr u \<Longrightarrow> u \<in> fst ` set (circuit_breakers svc)"
  by (cases delays) (simp add: get_proxy_def async_retry_get_proxy del: async_retry.simps)

lemma record_failure_breakers:
  "circuit_breakers (snd (record_failure url svc)) = circuit_breakers svc"
  by (simp add: record_failure_def Let_def split: option.splits)

lemma record_success_breakers:
  "circuit_breakers (snd (record_success t url d svc)) = circuit_breakers svc"
  by (simp add: record_success_def Let_def split: option.splits)

lemma record_success_untracked:
  "\<not> has_key (proxy_metrics svc) url \<Longrightarrow> record_success t url d svc = (Inr (), svc)"
  by (simp add: record_success_def has_key_def split: option.splits)

lemma breaker_opens_at_threshold:
  assumes "cb_state cb = Closed" and "cb_threshold cb \<le> of_nat (Suc (cb_failures cb))"
    and "0 < cb_recovery_timeout cb"
  shows "cb_is_open now (cb_record_failure now cb)"
  using assms by (simp add: cb_is_open_def cb_record_failure_def current_state_def)

lemma proxy_breaker_opens_on_first_failure:
  "cb_is_open now (cb_record_failure now (new_breaker PROXY_CIRCUIT_BREAKER_THRESHOLD 300))"
  by (rule breaker_opens_at_threshold)
     (simp_all add: new_breaker_def PROXY_CIRCUIT_BREAKER_THRESHOLD_def)

text \<open>The keys of the two dicts after each operation.\<close>

lemma remove_proxy_keys:
  "fst ` set (circuit_breakers (snd (remove_proxy p svc))) \<subseteq> fst ` set (circuit_breakers svc) - {p}"
  "fst ` set (proxy_metrics (snd (remove_proxy p svc))) \<subseteq> fst ` set (proxy_metrics svc) - {p}"
  using dom_delete_subset [of p "circuit_breakers svc"] delete_notin_dom [of p "circuit_breakers svc"]
        dom_delete_subset [of p "proxy_metrics svc"] delete_notin_dom [of p "proxy_metrics svc"]
  by (auto simp: remove_proxy_def Let_def)

lemma add_proxy_keys:
  "fst ` set (circuit_breakers (add_proxy v u svc))
     = (if v then insert u (fst ` set (circuit_breakers svc)) else fst ` set (circuit_breakers svc))"
  "fst ` set (proxy_metrics (add_proxy v u svc))
     = (if v then insert u (fst ` set (proxy_metrics svc)) else fst ` set (proxy_metrics svc))"
  by (auto simp: add_proxy_def dom_update)

lemma request_replacement_keys:
  assumes "replacement \<noteq> Some (url, True)"
  shows "url \<notin> fst ` set (circuit_breakers svc) \<Longrightarrow>
           url \<notin> fst ` set (circuit_breakers (request_replacement replacement svc))"
    and "url \<notin> fst ` set (proxy_metrics svc) \<Longrightarrow>
           url \<notin> fst ` set (proxy_metrics (request_replacement replacement svc))"
  using assms
  by (auto simp: request_replacement_def add_proxy_keys split: option.splits if_splits)

lemma report_failure_keeps_out:
  assumes "replacement \<noteq> Some (url, True)" and "url \<notin> fst ` set (circuit_breakers svc)"
  shows "url \<notin> fst ` set (circuit_breakers (snd (report_failure now replacement p svc)))"
proof -
  obtain r svc1 where rf: "record_failure p svc = (r, svc1)" by (cases "record_failure p svc")
  from rf record_failure_breakers [of p svc] have b1: "circuit_breakers svc1 = circuit_breakers svc"
    by simp
  with assms(2) have out1: "url \<notin> fst ` set (circuit_breakers svc1)" by simp
  show ?thesis
  proof (cases r)
    case (Inl e)
    with rf out1 show ?thesis by (simp add: report_failure_def)
  next
    case (Inr w)
    show ?thesis
    proof (cases "map_of (circuit_breakers svc1) p")
      case None
      with rf Inr request_replacement_keys(1) [OF assms(1) out1] show ?thesis
        by (simp add: report_failure_def)
    next
      case (Some cb)
      define svc2 where "svc2 = svc1\<lparr>circuit_breakers :=
          AList.update p (cb_record_failure now cb) (circuit_breakers svc1)\<rparr>"
      from Some have "p \<in> fst ` set (circuit_breakers svc1)"
        by (metis has_key_iff has_key_def option.simps(5))
      then have k2: "fst ` set (circuit_breakers svc2) = fst ` set (circuit_breakers svc1)"
        by (auto simp: svc2_def dom_update)
      with out1 have out2: "url \<notin> fst ` set (circuit_breakers svc2)" by simp
      obtain q svc3 where rm: "remove_proxy p svc2 = (q, svc3)" by (cases "remove_proxy p svc2")
      from remove_proxy_keys(1) [of p svc2] rm out2
      have out3: "url \<notin> fst ` set (circuit_breakers svc3)" by auto
      have res: "snd (report_failure now replacement p svc)
            = (if cb_is_open now (cb_record_failure now cb) then
                 (case q of Inl e \<Rightarrow> svc3 | Inr v \<Rightarrow> request_replacement replacement svc3)
               else request_replacement replacement svc2)"
        by (simp add: report_failure_def rf Inr Some Let_def svc2_def [symmetric] rm
              split: sum.splits)
      show ?thesis
        using request_replacement_keys(1) [OF assms(1) out2]
              request_replacement_keys(1) [OF assms(1) out3] out3
        by (simp add: res split: sum.splits)
    qed
  qed
qed

lemma remove_underperforming_keys:
  "fst ` set (circuit_breakers (snd (remove_underperforming ms svc)))
     \<subseteq> fst ` set (circuit_breakers svc)"
proof (induction ms arbitrary: svc)
  case Nil
  show ?case by simp
next
  case (Cons pm ms)
  obtain p m where pm: "pm = (p, m)" by (cases pm)
  obtain q svc1 where rm: "remove_proxy p svc = (q, svc1)" by (cases "remove_proxy p svc")
  from remove_proxy_keys(1) [of p svc] rm
  have k1: "fst ` set (circuit_breakers svc1) \<subseteq> fst ` set (circuit_breakers svc)" by auto
  show ?case
  proof (cases "health_score m < PROXY_SUCCESS_THRESHOLD")
    case False
    with Cons.IH [of svc] show ?thesis by (simp add: pm)
  next
    case True
    show ?thesis
    proof (cases q)
      case (Inl e)
      with True rm k1 show ?thesis by (simp add: pm)
    next
      case (Inr v)
      with True rm have "snd (remove_underperforming (pm # ms) svc)
                          = snd (remove_underperforming ms svc1)" by (simp add: pm)
      with Cons.IH [of svc1] k1 show ?thesis by auto
    qed
  qed
qed

lemma add_proxies_keeps_out:
  "(url, True) \<notin> set ps \<Longrightarrow> url \<notin> fst ` set (circuit_breakers svc) \<Longrightarrow>
   url \<notin> fst ` set (circuit_breakers (add_proxies ps svc))"
proof (induction ps arbitrary: svc)
  case Nil
  then show ?case by simp
next
  case (Cons uv ps)
  obtain u v where uv: "uv = (u, v)" by (cases uv)
  from Cons.prems uv have "url \<notin> fst ` set (circuit_breakers (add_proxy v u svc))"
    by (auto simp: add_proxy_keys)
  with Cons.IH [of "add_proxy v u svc"] Cons.prems(1) show ?case by (simp add: uv)
qed

lemma rotate_proxies_keeps_out:
  assumes "\<not> offers url (Rotate upstream)" and "url \<notin> fst ` set (circuit_breakers svc)"
  shows "url \<notin> fst ` set (circuit_breakers (rotate_proxies upstream svc))"
proof -
  obtain q svc1 where ru: "remove_underperforming (proxy_metrics svc) svc = (q, svc1)"
    by (cases "remove_underperforming (proxy_metrics svc) svc")
  from remove_underperforming_keys [of "proxy_metrics svc" svc] ru assms(2)
  have out1: "url \<notin> fst ` set (circuit_breakers svc1)" by auto
  show ?thesis
  proof (cases upstream)
    case None
    with ru out1 show ?thesis by (simp add: rotate_proxies_def split: sum.splits)
  next
    case (Some ps)
    with assms(1) have "(url, True) \<notin> set ps" by simp
    from add_proxies_keeps_out [OF this out1] ru out1 Some show ?thesis
      by (simp add: rotate_proxies_def split: sum.splits)
  qed
qed

lemma proxy_step_keeps_out:
  assumes "\<not> offers url c" and "url \<notin> fst ` set (circuit_breakers svc)"
  shows "url \<notin> fst ` set (circuit_breakers (snd (proxy_step svc c)))
       \<and> fst (proxy_step svc c) \<noteq> Some url"
proof (cases c)
  case (GetProxy delays now)
  from get_proxy_breakers [of delays now svc] get_proxy_member [of delays now svc url] assms(2)
  show ?thesis by (auto simp: GetProxy split: prod.splits sum.splits)
next
  case (RecordSuccess now p d)
  with assms(2) show ?thesis by (simp add: record_success_breakers)
next
  case (RecordFailure p)
  with assms(2) show ?thesis by (simp add: record_failure_breakers)
next
  case (ReportFailure now replacement p)
  with assms(1) have "replacement \<noteq> Some (url, True)" by auto
  from report_failure_keeps_out [OF this assms(2)] ReportFailure show ?thesis by simp
next
  case (Rotate upstream)
  with assms rotate_proxies_keeps_out [of url upstream svc] show ?thesis by simp
qed

lemma handed_out_keeps_out:
  "list_all (\<lambda>c. \<not> offers url c) cs \<Longrightarrow> url \<notin> fst ` set (circuit_breakers svc) \<Longrightarrow>
   url \<notin> set (handed_out svc cs)"
proof (induction cs arbitrary: svc)
  case Nil
  show ?case by simp
next
  case (Cons c cs)
  from Cons.prems have no: "\<not> offers url c" and rest: "list_all (\<lambda>c. \<not> offers url c) cs"
    by simp_all
  obtain r svc1 where st: "proxy_step svc c = (r, svc1)" by (cases "proxy_step svc c")
  from proxy_step_keeps_out [OF no Cons.prems(2)] st
  have out1: "url \<notin> fst ` set (circuit_breakers svc1)" and r: "r \<noteq> Some url" by simp_all
  from Cons.IH [OF rest out1] st r show ?case by (cases r) auto
qed

lemma report_failure_evicts:
  assumes cb: "map_of (circuit_breakers svc) url = Some cb"
    and opens: "cb_is_open now (cb_record_failure now cb)"
    and other: "replacement \<noteq> Some (url, True)"
    and rep: "report_failure now replacement url svc = (Inr (), svc')"
  shows "url \<notin> fst ` set (proxy_metrics svc') \<and> url \<notin> fst ` set (circuit_breakers svc')"
proof -
  obtain r svc1 where rf: "record_failure url svc = (r, svc1)"
    by (cases "record_failure url svc")
  from rep rf obtain w where r: "r = Inr w"
    by (cases r) (auto simp: report_failure_def)
  from rf record_failure_breakers [of url svc] have b1: "circuit_breakers svc1 = circuit_breakers svc"
    by simp
  have m1: "map_of (circuit_breakers svc1) url = Some cb" using cb b1 by simp
  define svc2 where "svc2 = svc1\<lparr>circuit_breakers :=
      AList.update url (cb_record_failure now cb) (circuit_breakers svc1)\<rparr>"
  obtain q svc3 where rm: "remove_proxy url svc2 = (q, svc3)" by (cases "remove_proxy url svc2")
  from remove_proxy_keys [of url svc2] rm
  have out3: "url \<notin> fst ` set (circuit_breakers svc3)" "url \<notin> fst ` set (proxy_metrics svc3)"
    by auto
  have "report_failure now replacement url svc
          = (case q of Inl e \<Rightarrow> (Inl e, svc3)
             | Inr v \<Rightarrow> (Inr (), request_replacement replacement svc3))"
    by (simp add: report_failure_def rf r m1 opens Let_def svc2_def [symmetric] rm)
  with rep have "svc' = request_replacement replacement svc3"
    by (cases q) auto
  with request_replacement_keys [OF other] out3 show ?thesis by simp
qed

text \<open>
  Claim C6, amended. When a failure reported through \<open>report_failure\<close> brings a
  proxy's breaker to Open (for the service's breakers, with threshold 0.85, the first
  failure does) and the call returns, the proxy is evicted from the registry: unless the
  upstream source hands the same URL back as the replacement, the proxy is then in
  neither dict. No \<open>get_proxy\<close> on that registry returns it, at any time, before or
  after the recovery timeout; a success recorded for it changes nothing; and through
  every run of later calls (\<open>get_proxy\<close>, success and failure reports,
  \<open>report_failure\<close>, rotation) in which the upstream source does not offer the URL
  again, no \<open>get_proxy\<close> returns it. It comes back only by being added anew from the
  upstream source, never by the recovery timeout and a recorded success.
\<close>

theorem opened_proxy_is_evicted:
  assumes "map_of (circuit_breakers svc) url = Some cb"
    and "cb_is_open now (cb_record_failure now cb)"
    and "replacement \<noteq> Some (url, True)"
    and "report_failure now replacement url svc = (Inr (), svc')"
  shows "\<not> has_key (proxy_metrics svc') url \<and> \<not> has_key (circuit_breakers svc') url
       \<and> (\<forall>delays t. fst (get_proxy delays t svc') \<noteq> Inr url)
       \<and> (\<forall>t d. record_success t url d svc' = (Inr (), svc'))
       \<and> (\<forall>delays t t' d.
             fst (get_proxy delays t' (snd (record_success t url d svc'))) \<noteq> Inr url)
       \<and> (\<forall>cs. list_all (\<lambda>c. \<not> offers url c) cs \<longrightarrow> url \<notin> set (handed_out svc' cs))"
proof -
  from report_failure_evicts [OF assms] have
    keys: "url \<notin> fst ` set (proxy_metrics svc') \<and> url \<notin> fst ` set (circuit_breakers svc')" .
  then have out: "\<not> has_key (proxy_metrics svc') url \<and> \<not> has_key (circuit_breakers svc') url"
    by (simp add: has_key_iff)
  have never: "\<And>delays t. fst (get_proxy delays t svc') \<noteq> Inr url"
    using keys get_proxy_member [of _ _ svc' url] by auto
  have noop: "\<And>t d. record_success t url d svc' = (Inr (), svc')"
    using out by (simp add: record_success_untracked)
  have runs: "\<And>cs. list_all (\<lambda>c. \<not> offers url c) cs \<Longrightarrow> url \<notin> set (handed_out svc' cs)"
    using keys by (simp add: handed_out_keeps_out)
  from out never noop runs show ?thesis by simp
qed

theorem opened_proxy_is_evicted_witness:
  "map_of (circuit_breakers one_proxy) ''A'' = Some (new_breaker PROXY_CIRCUIT_BREAKER_THRESHOLD 300)
   \<and> cb_is_open 10 (cb_record_failure 10 (new_breaker PROXY_CIRCUIT_BREAKER_THRESHOLD 300))
   \<and> report_failure 10 None ''A'' one_proxy = (Inr (), evicted)
   \<and> \<not> has_key (circuit_breakers evicted) ''A''
   \<and> fst (get_proxy (1, 2, 4) 20 evicted) \<noteq> Inr ''A''
   \<and> list_all (\<lambda>c. \<not> offers ''A'' c)
        [RecordSuccess 320 ''A'' 1, Rotate (Some [(''B'', True)]), GetProxy (1, 2, 4) 330]
   \<and> ''A'' \<notin> set (handed_out evicted
        [RecordSuccess 320 ''A'' 1, Rotate (Some [(''B'', True)]), GetProxy (1, 2, 4) 330])"
proof -
  let ?cs = "[RecordSuccess 320 ''A'' 1, Rotate (Some [(''B'', True)]), GetProxy (1, 2, 4) 330]"
  have a: "map_of (circuit_breakers one_proxy) ''A''
             = Some (new_breaker PROXY_CIRCUIT_BREAKER_THRESHOLD 300)"
    by (simp add: one_proxy_def)
  have b: "cb_is_open 10 (cb_record_failure 10 (new_breaker PROXY_CIRCUIT_BREAKER_THRESHOLD 300))"
    by (rule proxy_breaker_opens_on_first_failure)
  have c: "(None :: (string \<times> bool) option) \<noteq> Some (''A'', True)" by simp
  have d: "report_failure 10 None ''A'' one_proxy = (Inr (), evicted)"
    by (simp add: report_failure_def record_failure_def one_proxy_def remove_proxy_def
          request_replacement_def has_key_def evicted_def
          cb_record_failure_def cb_is_open_def current_state_def new_breaker_def
          PROXY_CIRCUIT_BREAKER_THRESHOLD_def Let_def)
  have e: "list_all (\<lambda>c. \<not> offers ''A'' c) ?cs" by simp
  from opened_proxy_is_evicted [OF a b c d]
  have "\<not> has_key (circuit_breakers evicted) ''A''"
    and "fst (get_proxy (1, 2, 4) 20 evicted) \<noteq> Inr ''A''"
    and "list_all (\<lambda>c. \<not> offers ''A'' c) ?cs \<longrightarrow> ''A'' \<notin> set (handed_out evicted ?cs)"
    by blast+
  with a b d e show ?thesis by blast
qed

text \<open>
  The rotation brings in what the upstream source offers: after the eviction of \<open>A\<close>
  a run that is offered \<open>B\<close> hands out \<open>B\<close>, and a run that is offered \<open>A\<close> again
  hands out \<open>A\<close>, added anew.
\<close>

lemma rotation_and_replacement_runs:
  "handed_out evicted
     [RecordSuccess 320 ''A'' 1, Rotate (Some [(''B'', True)]), GetProxy (1, 2, 4) 330] = [''B'']
   \<and> handed_out evicted
     [RecordSuccess 320 ''A'' 1, Rotate (Some [(''A'', True)]), GetProxy (1, 2, 4) 330] = [''A'']"
  by (simp add: evicted_def record_success_def rotate_proxies_def add_proxy_def get_proxy_def
        get_proxy_attempt_def cb_is_open_def current_state_def new_breaker_def score_def
        new_ProxyMetrics_def PROXY_SUCCESS_THRESHOLD_def Let_def)

text \<open>
  Claim C6 as stated fails in its second half: a proxy with 99 successes is evicted by
  one failure at time 10; at time 320, after the recovery timeout of 300 seconds, a
  success is recorded for it, and \<open>get_proxy\<close> at time 330 still raises: the proxy is
  not eligible again.
\<close>

theorem evicted_proxy_not_eligible_after_recovery:
  "health_score (snd (hd (proxy_metrics one_proxy))) = 1
   \<and> fst (report_failure 10 None ''A'' one_proxy) = Inr ()
   \<and> fst (record_success 320 ''A'' 1 (snd (report_failure 10 None ''A'' one_proxy))) = Inr ()
   \<and> fst (get_proxy (1, 2, 4) 330
            (snd (record_success 320 ''A'' 1 (snd (report_failure 10 None ''A'' one_proxy)))))
       = Inl RuntimeError"
  by (simp add: report_failure_def record_failure_def record_success_def one_proxy_def
        remove_proxy_def request_replacement_def has_key_def
        cb_record_failure_def cb_is_open_def current_state_def new_breaker_def
        PROXY_CIRCUIT_BREAKER_THRESHOLD_def get_proxy_def get_proxy_attempt_def Let_def)

end
